theory Spec2Isabelle
  imports Main "HOL-Library.Word" "HOL-Library.Sublist"
begin

section \<open>Benchmark harness entry point: a shallow embedding\<close>

text \<open>
  The development follows the harness source (the benchmark main file of the library):
  the registry, the hardware readiness check \<open>init_hw\<close>, the device enumerator
  \<open>get_num_devices\<close>, the system information probe \<open>get_sys_info\<close>, the command
  line splicer \<open>parse_local\<close>, the derived accessors \<open>get_block_size\<close>,
  \<open>get_in_mem\<close>, \<open>get_out_mem\<close>, and \<open>main\<close>.
  Strings are byte strings (\<open>char list\<close>), as \<open>std::string\<close> is.
\<close>

subsection \<open>Characters and C library helpers\<close>

text \<open>
  \<open>::tolower\<close> and \<open>::toupper\<close> in the "C" locale: only the 26 ASCII letters are
  mapped, every other byte (in particular every byte of a multi-byte UTF-8 sequence) is
  left as it is.
\<close>

definition tolower_c :: "char \<Rightarrow> char" where
  "tolower_c c =
     (case map_of (zip ''ABCDEFGHIJKLMNOPQRSTUVWXYZ'' ''abcdefghijklmnopqrstuvwxyz'') c of
        Some l \<Rightarrow> l
      | None \<Rightarrow> c)"

definition toupper_c :: "char \<Rightarrow> char" where
  "toupper_c c =
     (case map_of (zip ''abcdefghijklmnopqrstuvwxyz'' ''ABCDEFGHIJKLMNOPQRSTUVWXYZ'') c of
        Some u \<Rightarrow> u
      | None \<Rightarrow> c)"

text \<open>\<open>isspace\<close> in the "C" locale: space, \<open>\t\<close>, \<open>\n\<close>, \<open>\v\<close>, \<open>\f\<close>, \<open>\r\<close>.\<close>

definition isspace_c :: "char \<Rightarrow> bool" where
  "isspace_c c = (c \<in> set [CHR '' '', CHR 0x09, CHR 0x0A, CHR 0x0B, CHR 0x0C, CHR 0x0D])"

definition dec_digit :: "char \<Rightarrow> int option" where
  "dec_digit c = map_of (zip ''0123456789'' [0, 1, 2, 3, 4, 5, 6, 7, 8, 9]) c"

definition hex_digit :: "char \<Rightarrow> int option" where
  "hex_digit c =
     map_of (zip ''0123456789abcdefABCDEF''
       [0, 1, 2, 3, 4, 5, 6, 7, 8, 9, 10, 11, 12, 13, 14, 15, 10, 11, 12, 13, 14, 15]) c"

text \<open>
  The digit loop shared by \<open>atoi\<close> and \<open>strtol\<close>: it consumes digits of the base
  while there are some and stops at the first other character (or the end).
\<close>

fun digits_value :: "(char \<Rightarrow> int option) \<Rightarrow> int \<Rightarrow> int \<Rightarrow> string \<Rightarrow> int" where
  "digits_value dig base acc [] = acc"
| "digits_value dig base acc (c # cs) =
     (case dig c of
        Some d \<Rightarrow> digits_value dig base (acc * base + d) cs
      | None \<Rightarrow> acc)"

text \<open>
  \<open>strtol\<close> with a 64-bit \<open>long\<close> answers \<open>LONG_MAX\<close> for a numeral above the range
  and \<open>LONG_MIN\<close> for one below it.
\<close>

definition strtol_saturate :: "int \<Rightarrow> int" where
  "strtol_saturate v = max (- (2 ^ 63)) (min (2 ^ 63 - 1) v)"

text \<open>
  \<open>atoi(s)\<close> is \<open>(int) strtol(s, NULL, 10)\<close>: leading white space, an optional sign,
  decimal digits; 0 when there is no digit; saturated to the range of \<open>long\<close>. The value
  here is the \<open>long\<close>; the conversion to \<open>int\<close>, which keeps the low 32 bits, is made
  by the caller (\<open>word_of_int\<close>).
\<close>

definition atoi :: "string \<Rightarrow> int" where
  "atoi s =
     strtol_saturate
       (case dropWhile isspace_c s of
          [] \<Rightarrow> 0
        | c # cs \<Rightarrow>
            if c = CHR ''-'' then - digits_value dec_digit 10 0 cs
            else if c = CHR ''+'' then digits_value dec_digit 10 0 cs
            else digits_value dec_digit 10 0 (c # cs))"

text \<open>
  \<open>strtol(s, NULL, 16)\<close>: leading white space, an optional sign, an optional
  \<open>0x\<close>/\<open>0X\<close> prefix, hexadecimal digits; saturated to the range of \<open>long\<close>.
\<close>

definition strip_0x :: "string \<Rightarrow> string" where
  "strip_0x s =
     (case s of
        c0 # c1 # c2 # cs \<Rightarrow>
          if c0 = CHR ''0'' \<and> (c1 = CHR ''x'' \<or> c1 = CHR ''X'') \<and> hex_digit c2 \<noteq> None
          then c2 # cs else s
      | _ \<Rightarrow> s)"

definition strtol16 :: "string \<Rightarrow> int" where
  "strtol16 s =
     strtol_saturate
       (case dropWhile isspace_c s of
          [] \<Rightarrow> 0
        | c # cs \<Rightarrow>
            if c = CHR ''-'' then - digits_value hex_digit 16 0 (strip_0x cs)
            else if c = CHR ''+'' then digits_value hex_digit 16 0 (strip_0x cs)
            else digits_value hex_digit 16 0 (strip_0x (c # cs)))"

text \<open>
  \<open>std::string::find(pat, pos)\<close>: the first index \<open>\<ge> pos\<close> at which \<open>pat\<close> occurs;
  \<open>None\<close> is \<open>npos\<close>.
\<close>

fun find_from :: "string \<Rightarrow> string \<Rightarrow> nat \<Rightarrow> nat option" where
  "find_from pat [] k = (if pat = [] then Some k else None)"
| "find_from pat (c # cs) k =
     (if take (length pat) (c # cs) = pat then Some k else find_from pat cs (Suc k))"

definition string_find :: "string \<Rightarrow> string \<Rightarrow> nat \<Rightarrow> nat option" where
  "string_find str pat pos =
     (if pos \<le> length str then find_from pat (drop pos str) pos else None)"

subsection \<open>Errors\<close>

text \<open>Every failure of the harness is a \<open>std::runtime_error\<close> carrying its message.\<close>

datatype error = runtime_error string

subsection \<open>Flag store\<close>

text \<open>
  The \<open>BM_DEFINE_*\<close> globals. \<open>int32\<close> flags are 32-bit words (read with \<open>sint\<close>);
  a \<open>double\<close> is kept as its IEEE-754 bit pattern, no arithmetic is done on it here.
\<close>

datatype double = Double "64 word"

record flags =
  FLAGS_block_size :: string
  FLAGS_queue_size :: "32 word"
  FLAGS_batch_size :: "32 word"
  FLAGS_threads :: "32 word"
  FLAGS_node :: "32 word"
  FLAGS_dataset :: string
  FLAGS_in_mem :: string
  FLAGS_out_mem :: string
  FLAGS_full_time :: bool
  FLAGS_no_hw :: bool
  FLAGS_canned_part :: double
  FLAGS_canned_regen :: bool

text \<open>
  The default values of the definitions. The default of \<open>out_mem\<close> is the byte string
  of the source literal: a Latin \<open>c\<close>, then the two bytes \<open>D1 81\<close> (the UTF-8 encoding
  of the Cyrillic letter U+0441), then \<open>_ram\<close>.
\<close>

definition default_flags :: flags where
  "default_flags =
     \<lparr>FLAGS_block_size = ''-1'', FLAGS_queue_size = 0, FLAGS_batch_size = 0,
      FLAGS_threads = 0, FLAGS_node = - 1, FLAGS_dataset = [],
      FLAGS_in_mem = ''llc'', FLAGS_out_mem = CHR ''c'' # CHR 0xD1 # CHR 0x81 # ''_ram'',
      FLAGS_full_time = False, FLAGS_no_hw = False,
      FLAGS_canned_part = Double 0xBFF0000000000000, FLAGS_canned_regen = False\<rparr>"

subsection \<open>Derived accessors\<close>

text \<open>
  \<open>get_block_size\<close>. The function-local static \<open>block_size\<close> (initially \<open>-1\<close>) is
  passed in and returned. When the format check throws, the static already holds the
  parsed value.
\<close>

definition block_size_mult :: "string \<Rightarrow> 32 word" where
  "block_size_mult str =
     (if (length str > 2 \<and> string_find str ''KB'' (length str - 2) = Some (length str - 2))
         \<or> (length str > 1 \<and> string_find str ''K'' (length str - 1) = Some (length str - 1))
      then 1024
      else if (length str > 2 \<and> string_find str ''MB'' (length str - 2) = Some (length str - 2))
         \<or> (length str > 1 \<and> string_find str ''M'' (length str - 1) = Some (length str - 1))
      then 1024 * 1024
      else 1)"

definition get_block_size :: "flags \<Rightarrow> 32 word \<Rightarrow> (error + 32 word) \<times> 32 word" where
  "get_block_size fl block_size =
     (if sint block_size < 0 then
        let str = map toupper_c (FLAGS_block_size fl);
            mult = block_size_mult str;
            parsed = (word_of_int (atoi str) :: 32 word)
        in if parsed = 0 \<and> str \<noteq> ''0''
           then (Inl (runtime_error ''invalid block size format''), parsed)
           else (Inr (parsed * mult), parsed * mult)
      else (Inr block_size, block_size))"

text \<open>
  The multiplier as the specification words it, on the (upper-cased) suffix alone:
  \<open>K\<close> or \<open>KB\<close> gives 1024, \<open>M\<close> or \<open>MB\<close> gives 1024 * 1024, anything else 1.
\<close>

definition suffix_multiplier :: "string \<Rightarrow> int" where
  "suffix_multiplier sfx =
     (if sfx = ''K'' \<or> sfx = ''KB'' then 1024
      else if sfx = ''M'' \<or> sfx = ''MB'' then 1024 * 1024
      else 1)"

text \<open>
  The memory locations. The enumeration is declared in a header that is not among the
  sources; its enumerators are the ones the accessors name, and all of them are
  non-negative, so that the static \<open>(mem_loc_e)-1\<close> means "not computed yet": the
  static is an \<open>option\<close>, \<open>None\<close> for \<open>-1\<close>.
\<close>

datatype mem_loc_e = cache | llc | ram | pmem | cc_ram | cc_pmem

definition get_in_mem :: "flags \<Rightarrow> mem_loc_e option \<Rightarrow> (error + mem_loc_e) \<times> mem_loc_e option" where
  "get_in_mem fl mem =
     (case mem of
        Some m \<Rightarrow> (Inr m, mem)
      | None \<Rightarrow>
          let str = map tolower_c (FLAGS_in_mem fl) in
          if str = ''cache'' then (Inr cache, Some cache)
          else if str = ''llc'' then (Inr llc, Some llc)
          else if str = ''ram'' then (Inr ram, Some ram)
          else if str = ''pmem'' then (Inr pmem, Some pmem)
          else (Inl (runtime_error ''invalid input memory location''), None))"

text \<open>
  In \<open>get_out_mem\<close> the literals for \<open>cc_ram\<close> and \<open>cc_pmem\<close> are the source's bytes:
  \<open>63 D1 81 5F 72 61 6D\<close> and \<open>D1 81 D1 81 5F 70 6D 65 6D\<close>.
\<close>

definition get_out_mem :: "flags \<Rightarrow> mem_loc_e option \<Rightarrow> (error + mem_loc_e) \<times> mem_loc_e option" where
  "get_out_mem fl mem =
     (case mem of
        Some m \<Rightarrow> (Inr m, mem)
      | None \<Rightarrow>
          let str = map tolower_c (FLAGS_out_mem fl) in
          if str = ''ram'' then (Inr ram, Some ram)
          else if str = ''pmem'' then (Inr pmem, Some pmem)
          else if str = CHR ''c'' # CHR 0xD1 # CHR 0x81 # ''_ram'' then (Inr cc_ram, Some cc_ram)
          else if str = CHR 0xD1 # CHR 0x81 # CHR 0xD1 # CHR 0x81 # ''_pmem''
            then (Inr cc_pmem, Some cc_pmem)
          else (Inl (runtime_error ''invalid output memory location''), None))"

subsection \<open>NUMA-aware accelerator enumerator\<close>

text \<open>
  A device of the dispatcher exposes \<open>numa_id()\<close>, a 64-bit unsigned value; the source
  compares it with \<open>(uint64_t)(-1)\<close>. The requested node is a \<open>std::uint32_t\<close>;
  in \<open>device.numa_id() == numa\<close> it is converted to 64 bits by zero extension
  (\<open>ucast\<close>).
\<close>

record hw_device =
  numa_id :: "64 word"

text \<open>
  The range-for loop of \<open>get_num_devices\<close> over the dispatcher's devices, with the
  running \<open>counter\<close>. The counter is a C \<open>int\<close>; it is modelled as an unbounded
  integer, which agrees with the source for every device list shorter than \<open>2 ^ 31\<close>.
\<close>

fun get_num_devices_loop :: "hw_device list \<Rightarrow> 32 word \<Rightarrow> int \<Rightarrow> int" where
  "get_num_devices_loop [] numa counter = counter"
| "get_num_devices_loop (device # rest) numa counter =
     (if numa_id device = ucast numa then
        get_num_devices_loop rest numa (counter + 1)
      else if numa_id device \<noteq> ucast numa \<and> numa_id device = - 1 then
        get_num_devices_loop rest numa (counter + 1)
      else get_num_devices_loop rest numa counter)"

definition get_num_devices :: "hw_device list \<Rightarrow> 32 word \<Rightarrow> int" where
  "get_num_devices disp numa = get_num_devices_loop disp numa 0"

subsection \<open>System information probe\<close>

text \<open>
  \<open>extended_info_t\<close> is declared in a header that is not among the sources. Its fields
  are the ones \<open>get_sys_info\<close> writes; the CPU counters are \<open>std::uint32_t\<close> (the source
  casts to that type for \<open>std::max\<close>), a default-constructed record holds zeros and empty
  strings. The accelerator counts are kept as unbounded integers.
\<close>

record accel_info_t =
  total_devices :: int
  socket :: "int list"

record extended_info_t =
  host_name :: string
  kernel :: string
  cpu_model_name :: string
  cpu_model :: "32 word"
  cpu_microcode :: "32 word"
  cpu_stepping :: "32 word"
  cpu_logical_cores :: "32 word"
  cpu_physical_cores :: "32 word"
  cpu_sockets :: "32 word"
  cpu_physical_per_socket :: "32 word"
  cpu_physical_per_cluster :: "32 word"
  accelerators :: accel_info_t

definition default_info :: extended_info_t where
  "default_info =
     \<lparr>host_name = [], kernel = [], cpu_model_name = [], cpu_model = 0, cpu_microcode = 0,
      cpu_stepping = 0, cpu_logical_cores = 0, cpu_physical_cores = 0, cpu_sockets = 0,
      cpu_physical_per_socket = 0, cpu_physical_per_cluster = 0,
      accelerators = \<lparr>total_devices = 0, socket = []\<rparr>\<rparr>"

text \<open>
  Modelled from the spec: \<open>trim\<close> (a helper of a header that is not among the sources)
  removes the white space surrounding a string.
\<close>

definition trim :: "string \<Rightarrow> string" where
  "trim s = rev (dropWhile isspace_c (rev (dropWhile isspace_c s)))"

text \<open>
  One iteration of the \<open>std::getline\<close> loop over \<open>/proc/cpuinfo\<close>: \<open>line\<close> is the line
  read, \<open>info\<close> the record built so far.
\<close>

definition cpuinfo_line :: "string \<Rightarrow> extended_info_t \<Rightarrow> extended_info_t" where
  "cpuinfo_line line info =
     (if line = [] then info
      else case string_find line '':'' 0 of
        None \<Rightarrow> info
      | Some del_index \<Rightarrow>
          let key = trim (take del_index line);
              val = trim (drop (del_index + 1) line)
          in if key = ''processor'' then
               info\<lparr>cpu_logical_cores := cpu_logical_cores info + 1\<rparr>
             else if key = ''physical id'' then
               info\<lparr>cpu_sockets := max (cpu_sockets info) (word_of_int (atoi val) + 1)\<rparr>
             else if cpu_physical_per_socket info = 0 \<and> key = ''cpu cores'' then
               info\<lparr>cpu_physical_per_socket :=
                      max (cpu_physical_per_socket info) (word_of_int (atoi val))\<rparr>
             else if cpu_model_name info = [] \<and> key = ''model name'' then
               info\<lparr>cpu_model_name := val\<rparr>
             else if cpu_model info = 0 \<and> key = ''model'' then
               info\<lparr>cpu_model := word_of_int (atoi val)\<rparr>
             else if cpu_microcode info = 0 \<and> key = ''microcode'' then
               info\<lparr>cpu_microcode := word_of_int (strtol16 val)\<rparr>
             else if cpu_stepping info = 0 \<and> key = ''stepping'' then
               info\<lparr>cpu_stepping := word_of_int (atoi val)\<rparr>
             else info)"

text \<open>The whole \<open>while (std::getline(info_file, line))\<close> loop, over the lines of the file.\<close>

fun cpuinfo_lines :: "string list \<Rightarrow> extended_info_t \<Rightarrow> extended_info_t" where
  "cpuinfo_lines [] info = info"
| "cpuinfo_lines (line # rest) info = cpuinfo_lines rest (cpuinfo_line line info)"

text \<open>
  The loop \<open>for(std::uint32_t i = 0; i < info.cpu_sockets; ++i)\<close> that asks the enumerator
  for each socket.
\<close>

function accelerators_loop ::
  "hw_device list \<Rightarrow> 32 word \<Rightarrow> 32 word \<Rightarrow> accel_info_t \<Rightarrow> accel_info_t" where
  "accelerators_loop disp sockets i acc =
     (if i < sockets then
        let devices = get_num_devices disp i
        in accelerators_loop disp sockets (i + 1)
             (acc\<lparr>total_devices := total_devices acc + devices,
                  socket := socket acc @ [devices]\<rparr>)
      else acc)"
  by pat_completeness auto
termination
proof (relation "measure (\<lambda>(disp, sockets, i, acc). unat sockets - unat i)")
  show "wf (measure (\<lambda>(disp, sockets, i, acc). unat sockets - unat i))"
    by simp
next
  fix disp :: "hw_device list" and sockets i :: "32 word" and acc x :: accel_info_t
    and devices :: int
  assume lt: "i < sockets"
  then have "i \<noteq> - 1"
    by (metis word_order.extremum_strict)
  then have "1 + i \<noteq> 0"
    by (metis add.commute add_eq_0_iff)
  then have "unat (1 + i) = Suc (unat i)"
    by (rule unatSuc)
  then have "unat (i + 1) = Suc (unat i)"
    by (simp add: add.commute)
  moreover have "unat i < unat sockets"
    using lt by (simp add: word_less_nat_alt)
  ultimately show "((disp, sockets, i + 1, acc\<lparr>total_devices := total_devices acc + devices,
                  socket := socket acc @ [devices]\<rparr>), (disp, sockets, i, acc))
        \<in> measure (\<lambda>(disp, sockets, i, acc). unat sockets - unat i)"
    by simp
qed

declare accelerators_loop.simps [simp del]

text \<open>
  What \<open>get_sys_info\<close> reads from its surroundings: the answer of \<open>uname\<close>, the lines
  of \<open>/proc/cpuinfo\<close> (\<open>None\<close> when the file cannot be opened) and the devices of the
  dispatcher. The model is the one for Linux (the body under \<open>__linux__\<close>).
\<close>

record sys_env =
  uname_nodename :: string
  uname_release :: string
  proc_cpuinfo :: "string list option"
  dispatcher :: "hw_device list"

text \<open>
  The function-local statics \<open>info\<close>, \<open>is_setup\<close> and \<open>guard\<close> (held or not), and the
  summaries printed so far (one entry, the record printed, for each run of the block
  of \<open>printf\<close> calls).
\<close>

record sys_info_statics =
  info :: extended_info_t
  is_setup :: bool
  guard_locked :: bool
  printed :: "extended_info_t list"

definition initial_statics :: sys_info_statics where
  "initial_statics =
     \<lparr>info = default_info, is_setup = False, guard_locked = False, printed = []\<rparr>"

definition clusters_per_socket :: "32 word" where
  "clusters_per_socket = 4"

text \<open>The build block under \<open>if(!is_setup)\<close>, once the file is open.\<close>

definition build_info :: "sys_env \<Rightarrow> string list \<Rightarrow> extended_info_t \<Rightarrow> extended_info_t" where
  "build_info env lines info1 =
     (let info2 = cpuinfo_lines lines info1;
          info3 = info2\<lparr>cpu_physical_cores := cpu_physical_per_socket info2 * cpu_sockets info2,
                        cpu_physical_per_cluster :=
                          cpu_physical_per_socket info2 div clusters_per_socket\<rparr>
      in info3\<lparr>accelerators :=
                 accelerators_loop (dispatcher env) (cpu_sockets info3) 0 (accelerators info3)\<rparr>)"

text \<open>
  \<open>get_sys_info\<close>. \<open>guard.lock()\<close> on a mutex that is held never returns: the result is
  \<open>None\<close>. When the file cannot be opened the exception leaves the function with the
  mutex still held and \<open>is_setup\<close> still false.
\<close>

definition get_sys_info ::
  "sys_env \<Rightarrow> sys_info_statics \<Rightarrow> ((error + extended_info_t) \<times> sys_info_statics) option" where
  "get_sys_info env st =
     (if guard_locked st then None
      else
        let st = st\<lparr>guard_locked := True\<rparr> in
        if \<not> is_setup st then
          let st = st\<lparr>info := (info st)\<lparr>host_name := uname_nodename env,
                                          kernel := uname_release env\<rparr>\<rparr>
          in case proc_cpuinfo env of
               None \<Rightarrow> Some (Inl (runtime_error ''Failed to open /proc/cpuinfo''), st)
             | Some lines \<Rightarrow>
                 let built = build_info env lines (info st);
                     st = st\<lparr>info := built, printed := printed st @ [built],
                             is_setup := True, guard_locked := False\<rparr>
                 in Some (Inr (info st), st)
        else
          let st = st\<lparr>guard_locked := False\<rparr>
          in Some (Inr (info st), st))"

text \<open>
  Notions used to state the properties of the probe. \<open>key_value\<close> is the key and the
  value of a line as the loop splits it (\<open>None\<close> for a line it skips), \<open>values_of\<close>
  the values, in file order, of the lines with a given key, \<open>first_nonzero\<close> and
  \<open>first_nonempty\<close> the first value that is not zero (not empty), zero (empty) when
  there is none. \<open>later_calls\<close> makes one call of \<open>get_sys_info\<close> for each
  environment of a list and collects the results.
\<close>

definition key_value :: "string \<Rightarrow> (string \<times> string) option" where
  "key_value line =
     (if line = [] then None
      else case string_find line '':'' 0 of
        None \<Rightarrow> None
      | Some del_index \<Rightarrow> Some (trim (take del_index line), trim (drop (del_index + 1) line)))"

definition values_of :: "string \<Rightarrow> string list \<Rightarrow> string list" where
  "values_of k lines = map snd (filter (\<lambda>kv. fst kv = k) (List.map_filter key_value lines))"

definition first_nonzero :: "32 word list \<Rightarrow> 32 word" where
  "first_nonzero ws = (case dropWhile (\<lambda>w. w = 0) ws of [] \<Rightarrow> 0 | w # rest \<Rightarrow> w)"

definition first_nonempty :: "string list \<Rightarrow> string" where
  "first_nonempty vs = (case dropWhile (\<lambda>v. v = []) vs of [] \<Rightarrow> [] | v # rest \<Rightarrow> v)"

fun later_calls ::
  "sys_env list \<Rightarrow> sys_info_statics \<Rightarrow> ((error + extended_info_t) list \<times> sys_info_statics) option" where
  "later_calls [] st = Some ([], st)"
| "later_calls (env # envs) st =
     (case get_sys_info env st of
        None \<Rightarrow> None
      | Some (r, st') \<Rightarrow>
          (case later_calls envs st' of
             None \<Rightarrow> None
           | Some (rs, st'') \<Rightarrow> Some (r # rs, st'')))"

subsection \<open>Hardware readiness check\<close>

text \<open>
  The library calls of \<open>init_hw\<close> are external: they are a parameter of the model, each
  returning its status (and the job as it leaves it). \<open>QPL_STS_OK\<close> is status 0. A call
  that never returns (a device that hangs in \<open>qpl_wait_job\<close>) is outside the model: every
  call returns a status.
\<close>

type_synonym qpl_status = nat

definition QPL_STS_OK :: qpl_status where
  "QPL_STS_OK = 0"

datatype qpl_path_t = qpl_path_auto | qpl_path_hardware | qpl_path_software

datatype qpl_operation = qpl_op_unset | qpl_op_crc64

text \<open>
  The fields of the job that \<open>init_hw\<close> writes. \<open>next_in_ptr\<close> is modelled by the bytes
  it points at (the four bytes of the local \<open>int data = 0\<close>).
\<close>

record qpl_job =
  next_in_ptr :: "8 word list"
  available_in :: "32 word"
  op :: qpl_operation
  crc64_poly :: "64 word"

record qpl_library =
  qpl_get_job_size :: "qpl_path_t \<Rightarrow> qpl_status \<times> 32 word"
  qpl_init_job :: "qpl_path_t \<Rightarrow> qpl_status \<times> qpl_job"
  qpl_submit_job :: "qpl_job \<Rightarrow> qpl_status \<times> qpl_job"
  qpl_wait_job :: "qpl_job \<Rightarrow> qpl_status \<times> qpl_job"
  qpl_fini_job :: "qpl_job \<Rightarrow> qpl_status \<times> qpl_job"

text \<open>The library calls made, in order, each with the status it returned.\<close>

datatype qpl_call =
    call_get_job_size qpl_path_t
  | call_init_job qpl_path_t
  | call_submit_job qpl_job
  | call_wait_job qpl_job
  | call_fini_job qpl_job

datatype qpl_step = step_get_job_size | step_init_job | step_submit_job | step_wait_job | step_fini_job

fun step_of :: "qpl_call \<Rightarrow> qpl_step" where
  "step_of (call_get_job_size p) = step_get_job_size"
| "step_of (call_init_job p) = step_init_job"
| "step_of (call_submit_job j) = step_submit_job"
| "step_of (call_wait_job j) = step_wait_job"
| "step_of (call_fini_job j) = step_fini_job"

definition poly :: "64 word" where
  "poly = 0x04C11DB700000000"

definition init_hw :: "qpl_library \<Rightarrow> (error + bool) \<times> (qpl_call \<times> qpl_status) list" where
  "init_hw lib =
     (let (status, size) = qpl_get_job_size lib qpl_path_hardware;
          calls = [(call_get_job_size qpl_path_hardware, status)]
      in if status \<noteq> QPL_STS_OK
         then (Inl (runtime_error ''hw init failed in qpl_get_job_size''), calls)
         else
      let (status, job) = qpl_init_job lib qpl_path_hardware;
          calls = calls @ [(call_init_job qpl_path_hardware, status)]
      in if status \<noteq> QPL_STS_OK
         then (Inl (runtime_error ''hw init failed in qpl_init_job''), calls)
         else
      let job = job\<lparr>next_in_ptr := [0, 0, 0, 0], available_in := 4,
                     op := qpl_op_crc64, crc64_poly := poly\<rparr>;
          (status, job') = qpl_submit_job lib job;
          calls = calls @ [(call_submit_job job, status)]
      in if status \<noteq> QPL_STS_OK
         then (Inl (runtime_error ''hw init failed in qpl_submit_job''), calls)
         else
      let (status, job'') = qpl_wait_job lib job';
          calls = calls @ [(call_wait_job job', status)]
      in if status \<noteq> QPL_STS_OK
         then (Inl (runtime_error ''hw init failed in qpl_wait_job''), calls)
         else
      let (status, job''') = qpl_fini_job lib job'';
          calls = calls @ [(call_fini_job job'', status)]
      in if status \<noteq> QPL_STS_OK
         then (Inl (runtime_error ''hw init failed in qpl_fini_job''), calls)
         else (Inr True, calls))"

text \<open>
  Notions used to state the property of the check. \<open>hw_steps\<close> lists the five library
  calls in the order of the source, each with the job it is given and the status the
  library returns for it; \<open>upto_first_failure\<close> cuts such a list after the first call
  whose status is not \<open>QPL_STS_OK\<close>; \<open>step_name\<close> is the name of the library function
  of a step.
\<close>

definition hw_steps :: "qpl_library \<Rightarrow> (qpl_call \<times> qpl_status) list" where
  "hw_steps lib =
     (let job = (snd (qpl_init_job lib qpl_path_hardware))
                  \<lparr>next_in_ptr := [0, 0, 0, 0], available_in := 4,
                   op := qpl_op_crc64, crc64_poly := poly\<rparr>;
          submitted = qpl_submit_job lib job;
          waited = qpl_wait_job lib (snd submitted);
          finished = qpl_fini_job lib (snd waited)
      in [(call_get_job_size qpl_path_hardware, fst (qpl_get_job_size lib qpl_path_hardware)),
          (call_init_job qpl_path_hardware, fst (qpl_init_job lib qpl_path_hardware)),
          (call_submit_job job, fst submitted),
          (call_wait_job (snd submitted), fst waited),
          (call_fini_job (snd waited), fst finished)])"

fun upto_first_failure :: "(qpl_call \<times> qpl_status) list \<Rightarrow> (qpl_call \<times> qpl_status) list" where
  "upto_first_failure [] = []"
| "upto_first_failure (c # cs) =
     (if snd c = QPL_STS_OK then c # upto_first_failure cs else [c])"

fun step_name :: "qpl_step \<Rightarrow> string" where
  "step_name step_get_job_size = ''qpl_get_job_size''"
| "step_name step_init_job = ''qpl_init_job''"
| "step_name step_submit_job = ''qpl_submit_job''"
| "step_name step_wait_job = ''qpl_wait_job''"
| "step_name step_fini_job = ''qpl_fini_job''"

subsection \<open>Benchmark registry\<close>

text \<open>
  \<open>registry_t\<close> is an ordered collection of callbacks without arguments and results. A
  callback acts on the rest of the process state, the type \<open>'w\<close>; it does not touch the
  registry itself. \<open>get_registry\<close> hands out the one function-local static.
\<close>

type_synonym 'w registry_t = "('w \<Rightarrow> 'w) list"

record 'w process =
  reg :: "'w registry_t"
  world :: 'w
  invoked :: "nat list"

definition get_registry :: "'w process \<Rightarrow> 'w registry_t" where
  "get_registry p = reg p"

text \<open>
  Modelled from the spec: the registration itself (the static initialisers of the
  measurement modules, in headers that are not among the sources) appends the callback to
  the shared sequence.
\<close>

definition register_benchmark :: "('w \<Rightarrow> 'w) \<Rightarrow> 'w process \<Rightarrow> 'w process" where
  "register_benchmark f p = p\<lparr>reg := get_registry p @ [f]\<rparr>"

text \<open>
  The loop \<open>for(auto &reg : registry) reg();\<close> of \<open>main\<close>. The position of each callback
  that is called is recorded in \<open>invoked\<close>, so that the calls can be counted.
\<close>

fun run_registry_from :: "nat \<Rightarrow> 'w registry_t \<Rightarrow> 'w process \<Rightarrow> 'w process" where
  "run_registry_from i [] p = p"
| "run_registry_from i (f # rest) p =
     run_registry_from (Suc i) rest (p\<lparr>world := f (world p), invoked := invoked p @ [i]\<rparr>)"

definition run_registry :: "'w process \<Rightarrow> 'w process" where
  "run_registry p = run_registry_from 0 (get_registry p) p"

subsection \<open>Command line splicer\<close>

text \<open>
  The flag parsers \<open>benchmark::Parse*Flag\<close> and \<open>benchmark::IsFlag\<close> belong to the
  benchmarking framework, an external library: they are a parameter of the model. A
  parser applied to an argument and a flag name answers \<open>Some v\<close> when it returns true,
  having stored \<open>v\<close> in the flag variable, and \<open>None\<close> when it returns false, having
  stored nothing.
\<close>

record flag_parsers =
  ParseStringFlag :: "string \<Rightarrow> string \<Rightarrow> string option"
  ParseInt32Flag :: "string \<Rightarrow> string \<Rightarrow> 32 word option"
  ParseBoolFlag :: "string \<Rightarrow> string \<Rightarrow> bool option"
  ParseDoubleFlag :: "string \<Rightarrow> string \<Rightarrow> double option"
  IsFlag :: "string \<Rightarrow> string \<Rightarrow> bool"

text \<open>
  The condition of the \<open>if\<close> in \<open>parse_local\<close>: the twelve parsers joined by \<open>||\<close>,
  tried in the order of the source; the first that returns true has stored its value and
  the others are not called (\<open>first_true\<close>: each entry of the list is the store as
  that parser leaves it when it returns true). \<open>None\<close> means that all twelve returned
  false.
\<close>

fun first_true :: "'a option list \<Rightarrow> 'a option" where
  "first_true [] = None"
| "first_true (Some r # rest) = Some r"
| "first_true (None # rest) = first_true rest"

definition parse_flags_chain :: "flag_parsers \<Rightarrow> string \<Rightarrow> flags \<Rightarrow> flags option" where
  "parse_flags_chain api arg fl =
     first_true
      [map_option (\<lambda>v. fl\<lparr>FLAGS_dataset := v\<rparr>) (ParseStringFlag api arg ''dataset''),
       map_option (\<lambda>v. fl\<lparr>FLAGS_block_size := v\<rparr>) (ParseStringFlag api arg ''block_size''),
       map_option (\<lambda>v. fl\<lparr>FLAGS_threads := v\<rparr>) (ParseInt32Flag api arg ''threads''),
       map_option (\<lambda>v. fl\<lparr>FLAGS_node := v\<rparr>) (ParseInt32Flag api arg ''node''),
       map_option (\<lambda>v. fl\<lparr>FLAGS_full_time := v\<rparr>) (ParseBoolFlag api arg ''full_time''),
       map_option (\<lambda>v. fl\<lparr>FLAGS_queue_size := v\<rparr>) (ParseInt32Flag api arg ''queue_size''),
       map_option (\<lambda>v. fl\<lparr>FLAGS_batch_size := v\<rparr>) (ParseInt32Flag api arg ''batch_size''),
       map_option (\<lambda>v. fl\<lparr>FLAGS_no_hw := v\<rparr>) (ParseBoolFlag api arg ''no_hw''),
       map_option (\<lambda>v. fl\<lparr>FLAGS_in_mem := v\<rparr>) (ParseStringFlag api arg ''in_mem''),
       map_option (\<lambda>v. fl\<lparr>FLAGS_out_mem := v\<rparr>) (ParseStringFlag api arg ''out_mem''),
       map_option (\<lambda>v. fl\<lparr>FLAGS_canned_part := v\<rparr>) (ParseDoubleFlag api arg ''canned_part''),
       map_option (\<lambda>v. fl\<lparr>FLAGS_canned_regen := v\<rparr>) (ParseBoolFlag api arg ''canned_regen'')]"

text \<open>
  \<open>argv\<close> is the array of arguments, \<open>argc\<close> the count, \<open>i\<close> and \<open>j\<close> the indices; all
  are C \<open>int\<close>s that stay non-negative (\<open>i\<close> starts at 1, and \<open>--i\<close> is followed by the
  \<open>++i\<close> of the loop header), so they are natural numbers here. Reading the array outside
  its bounds is undefined in the source: the model answers \<open>None\<close>.

  The inner loop \<open>for(int j = i; j != *argc - 1; ++j) argv[j] = argv[j + 1];\<close>
\<close>

function shift_left :: "string list \<Rightarrow> nat \<Rightarrow> nat \<Rightarrow> string list option" where
  "shift_left argv j argc =
     (if j \<noteq> argc - 1 then
        if j + 1 < length argv then shift_left (argv[j := argv ! (j + 1)]) (j + 1) argc
        else None
      else Some argv)"
  by pat_completeness auto
termination
  by (relation "measure (\<lambda>(argv, j, argc). length argv - j)") auto

declare shift_left.simps [simp del]

text \<open>
  The outer loop \<open>for(int i = 1; argc && i < *argc; ++i)\<close>; \<open>argc\<close> is never a null
  pointer (\<open>main\<close> passes the address of its parameter). \<open>helps\<close> counts the calls of
  \<open>print_help\<close>, which writes a fixed text to the standard output.
\<close>

function parse_local_loop ::
  "flag_parsers \<Rightarrow> nat \<Rightarrow> nat \<Rightarrow> string list \<Rightarrow> flags \<Rightarrow> nat
     \<Rightarrow> (nat \<times> string list \<times> flags \<times> nat) option" where
  "parse_local_loop api i argc argv fl helps =
     (if i < argc then
        if i < length argv then
          (case parse_flags_chain api (argv ! i) fl of
             Some fl' \<Rightarrow>
               (case shift_left argv i argc of
                  None \<Rightarrow> None
                | Some argv' \<Rightarrow> parse_local_loop api (Suc (i - 1)) (argc - 1) argv' fl' helps)
           | None \<Rightarrow>
               if IsFlag api (argv ! i) ''help''
               then parse_local_loop api (Suc i) argc argv fl (Suc helps)
               else parse_local_loop api (Suc i) argc argv fl helps)
        else None
      else Some (argc, argv, fl, helps))"
  by pat_completeness auto
termination
  by (relation "measure (\<lambda>(api, i, argc, argv, fl, helps). argc - i)") auto

declare parse_local_loop.simps [simp del]

definition parse_local ::
  "flag_parsers \<Rightarrow> nat \<Rightarrow> string list \<Rightarrow> flags \<Rightarrow> (nat \<times> string list \<times> flags \<times> nat) option" where
  "parse_local api argc argv fl = parse_local_loop api 1 argc argv fl 0"

text \<open>
  Modelled from the spec: the syntax of the framework's flags, as far as the specification
  gives it. A flag with a value is written \<open>--name=value\<close>; a boolean flag may also be
  written bare, \<open>--name\<close>, which means true; \<open>IsFlag\<close> accepts both forms. How a value
  text is read as a boolean, a 32-bit integer or a double is left open: the three
  readers \<open>truthy\<close>, \<open>read_int32\<close> and \<open>read_double\<close> are parameters.
\<close>

definition ParseFlagValue :: "string \<Rightarrow> string \<Rightarrow> bool \<Rightarrow> string option" where
  "ParseFlagValue str flag def_optional =
     (let flag_str = ''--'' @ flag;
          flag_len = length flag_str
      in if take flag_len str \<noteq> flag_str then None
         else
           let flag_end = drop flag_len str
           in if def_optional \<and> flag_end = [] then Some flag_end
              else case flag_end of
                     [] \<Rightarrow> None
                   | c # value_str \<Rightarrow> if c \<noteq> CHR ''='' then None else Some value_str)"

definition framework_parsers ::
  "(string \<Rightarrow> bool) \<Rightarrow> (string \<Rightarrow> 32 word option) \<Rightarrow> (string \<Rightarrow> double option) \<Rightarrow> flag_parsers" where
  "framework_parsers truthy read_int32 read_double =
     \<lparr>ParseStringFlag = (\<lambda>str flag. ParseFlagValue str flag False),
      ParseInt32Flag = (\<lambda>str flag. case ParseFlagValue str flag False of
                                      None \<Rightarrow> None | Some v \<Rightarrow> read_int32 v),
      ParseBoolFlag = (\<lambda>str flag. case ParseFlagValue str flag True of
                                     None \<Rightarrow> None | Some v \<Rightarrow> Some (v = [] \<or> truthy v)),
      ParseDoubleFlag = (\<lambda>str flag. case ParseFlagValue str flag False of
                                       None \<Rightarrow> None | Some v \<Rightarrow> read_double v),
      IsFlag = (\<lambda>str flag. ParseFlagValue str flag True \<noteq> None)\<rparr>"

text \<open>
  Notions used to state the properties of the splicer. An argument is \<open>recognized\<close> when
  the chain of parsers accepts it (this does not depend on the flag values). The twelve
  flags are named by \<open>flag_id\<close>, and \<open>read_flag\<close> reads the value of one of them out of
  the store; \<open>token_sets\<close> tells, for an argument, which flag it sets and to what.
\<close>

definition recognized :: "flag_parsers \<Rightarrow> string \<Rightarrow> bool" where
  "recognized api arg = (case parse_flags_chain api arg default_flags of None \<Rightarrow> False | Some fl \<Rightarrow> True)"

definition splice_token :: "flag_parsers \<Rightarrow> flags \<Rightarrow> string \<Rightarrow> flags" where
  "splice_token api fl arg = (case parse_flags_chain api arg fl of None \<Rightarrow> fl | Some fl' \<Rightarrow> fl')"

datatype flag_id =
    id_dataset | id_block_size | id_threads | id_node | id_full_time | id_queue_size
  | id_batch_size | id_no_hw | id_in_mem | id_out_mem | id_canned_part | id_canned_regen

datatype flag_value = string_value string | int32_value "32 word" | bool_value bool | double_value double

fun read_flag :: "flag_id \<Rightarrow> flags \<Rightarrow> flag_value" where
  "read_flag id_dataset fl = string_value (FLAGS_dataset fl)"
| "read_flag id_block_size fl = string_value (FLAGS_block_size fl)"
| "read_flag id_threads fl = int32_value (FLAGS_threads fl)"
| "read_flag id_node fl = int32_value (FLAGS_node fl)"
| "read_flag id_full_time fl = bool_value (FLAGS_full_time fl)"
| "read_flag id_queue_size fl = int32_value (FLAGS_queue_size fl)"
| "read_flag id_batch_size fl = int32_value (FLAGS_batch_size fl)"
| "read_flag id_no_hw fl = bool_value (FLAGS_no_hw fl)"
| "read_flag id_in_mem fl = string_value (FLAGS_in_mem fl)"
| "read_flag id_out_mem fl = string_value (FLAGS_out_mem fl)"
| "read_flag id_canned_part fl = double_value (FLAGS_canned_part fl)"
| "read_flag id_canned_regen fl = bool_value (FLAGS_canned_regen fl)"

definition token_sets :: "flag_parsers \<Rightarrow> string \<Rightarrow> (flag_id \<times> flag_value) option" where
  "token_sets api arg =
     first_true
      [map_option (\<lambda>v. (id_dataset, string_value v)) (ParseStringFlag api arg ''dataset''),
       map_option (\<lambda>v. (id_block_size, string_value v)) (ParseStringFlag api arg ''block_size''),
       map_option (\<lambda>v. (id_threads, int32_value v)) (ParseInt32Flag api arg ''threads''),
       map_option (\<lambda>v. (id_node, int32_value v)) (ParseInt32Flag api arg ''node''),
       map_option (\<lambda>v. (id_full_time, bool_value v)) (ParseBoolFlag api arg ''full_time''),
       map_option (\<lambda>v. (id_queue_size, int32_value v)) (ParseInt32Flag api arg ''queue_size''),
       map_option (\<lambda>v. (id_batch_size, int32_value v)) (ParseInt32Flag api arg ''batch_size''),
       map_option (\<lambda>v. (id_no_hw, bool_value v)) (ParseBoolFlag api arg ''no_hw''),
       map_option (\<lambda>v. (id_in_mem, string_value v)) (ParseStringFlag api arg ''in_mem''),
       map_option (\<lambda>v. (id_out_mem, string_value v)) (ParseStringFlag api arg ''out_mem''),
       map_option (\<lambda>v. (id_canned_part, double_value v)) (ParseDoubleFlag api arg ''canned_part''),
       map_option (\<lambda>v. (id_canned_regen, bool_value v)) (ParseBoolFlag api arg ''canned_regen'')]"

text \<open>
  The value the last argument of a list that sets the flag \<open>f\<close> gives it, \<open>None\<close> when no
  argument of the list sets \<open>f\<close>.
\<close>

definition last_occurrence :: "flag_parsers \<Rightarrow> flag_id \<Rightarrow> string list \<Rightarrow> flag_value option" where
  "last_occurrence api f args =
     (case filter (\<lambda>s. fst s = f) (List.map_filter (token_sets api) args) of
        [] \<Rightarrow> None
      | s # ss \<Rightarrow> Some (snd (last (s # ss))))"

subsection \<open>Entry point\<close>

text \<open>
  The calls into the benchmarking framework made by \<open>main\<close> are a parameter, like its
  flag parsers: \<open>Initialize\<close> takes the arguments left by the splicer and leaves those it
  does not consume itself, \<open>ReportUnrecognizedArguments\<close> tells whether any are left,
  \<open>RunSpecifiedBenchmarks\<close> acts on the process state and returns a count, \<open>Shutdown\<close>
  acts on the process state. Each of them returns; a framework call that ends the
  process by itself is outside the model.
\<close>

record 'w framework =
  flag_syntax :: flag_parsers
  Initialize :: "string list \<Rightarrow> string list"
  ReportUnrecognizedArguments :: "string list \<Rightarrow> bool"
  RunSpecifiedBenchmarks :: "'w \<Rightarrow> nat \<times> 'w"
  Shutdown :: "'w \<Rightarrow> 'w"

text \<open>The globals and statics \<open>main\<close> works on.\<close>

record 'w harness =
  FLAGS :: flags
  sys_info :: sys_info_statics
  registry :: "'w process"

text \<open>
  What \<open>main\<close> does, step by step, and how it ends: by returning a value, or by an
  exception that nothing catches.
\<close>

datatype main_step =
    step_parse_local
  | step_Initialize
  | step_ReportUnrecognizedArguments
  | step_get_sys_info
  | step_init_hw
  | step_callback nat
  | step_RunSpecifiedBenchmarks
  | step_Shutdown

datatype main_result = returned int | uncaught error

text \<open>
  The end of \<open>main\<close>: the loop over the registry, \<open>RunSpecifiedBenchmarks\<close>, \<open>Shutdown\<close>
  and \<open>return 0\<close>. The value of \<open>RunSpecifiedBenchmarks\<close> is not used.
\<close>

definition main_run ::
  "'w framework \<Rightarrow> 'w harness \<Rightarrow> main_result \<times> main_step list \<times> 'w harness" where
  "main_run fw h =
     (let p = run_registry (registry h);
          calls = map step_callback (drop (length (invoked (registry h))) (invoked p));
          (count, w) = RunSpecifiedBenchmarks fw (world p);
          w' = Shutdown fw w
      in (returned 0,
          calls @ [step_RunSpecifiedBenchmarks, step_Shutdown],
          h\<lparr>registry := p\<lparr>world := w'\<rparr>\<rparr>))"

text \<open>The part of \<open>main\<close> after the check of the arguments.\<close>

definition main_checked ::
  "'w framework \<Rightarrow> sys_env \<Rightarrow> qpl_library \<Rightarrow> 'w harness
     \<Rightarrow> (main_result \<times> main_step list \<times> 'w harness) option" where
  "main_checked fw env lib h =
     (case get_sys_info env (sys_info h) of
        None \<Rightarrow> None
      | Some (r, st) \<Rightarrow>
          (let h = h\<lparr>sys_info := st\<rparr> in
           case r of
             Inl e \<Rightarrow> Some (uncaught e, [step_get_sys_info], h)
           | Inr snapshot \<Rightarrow>
               if \<not> FLAGS_no_hw (FLAGS h) then
                 (case fst (init_hw lib) of
                    Inl e \<Rightarrow> Some (uncaught e, [step_get_sys_info, step_init_hw], h)
                  | Inr ok \<Rightarrow>
                      (let (res, steps, h') = main_run fw h
                       in Some (res, [step_get_sys_info, step_init_hw] @ steps, h')))
               else
                 (let (res, steps, h') = main_run fw h
                  in Some (res, [step_get_sys_info] @ steps, h'))))"

definition main ::
  "'w framework \<Rightarrow> sys_env \<Rightarrow> qpl_library \<Rightarrow> nat \<Rightarrow> string list \<Rightarrow> 'w harness
     \<Rightarrow> (main_result \<times> main_step list \<times> 'w harness) option" where
  "main fw env lib argc argv h =
     (case parse_local (flag_syntax fw) argc argv (FLAGS h) of
        None \<Rightarrow> None
      | Some (argc', argv', fl, helps) \<Rightarrow>
          (let h = h\<lparr>FLAGS := fl\<rparr>;
               args = Initialize fw (take argc' argv');
               steps = [step_parse_local, step_Initialize, step_ReportUnrecognizedArguments]
           in if ReportUnrecognizedArguments fw args then Some (returned 1, steps, h)
              else
                (case main_checked fw env lib h of
                   None \<Rightarrow> None
                 | Some (res, steps', h') \<Rightarrow> Some (res, steps @ steps', h'))))"

section \<open>Properties\<close>

subsection \<open>Upper-casing, \<open>atoi\<close> and \<open>find\<close>\<close>

lemma toupper_c_cases:
  "toupper_c c = c \<or> (c \<in> set ''abcdefghijklmnopqrstuvwxyz'' \<and> toupper_c c \<in> set ''ABCDEFGHIJKLMNOPQRSTUVWXYZ'')"
proof (cases "map_of (zip ''abcdefghijklmnopqrstuvwxyz'' ''ABCDEFGHIJKLMNOPQRSTUVWXYZ'') c")
  case None
  then have "toupper_c c = c" by (simp only: toupper_c_def option.case)
  then show ?thesis by (rule disjI1)
next
  case (Some u)
  then have "(c, u) \<in> set (zip ''abcdefghijklmnopqrstuvwxyz'' ''ABCDEFGHIJKLMNOPQRSTUVWXYZ'')"
    by (rule map_of_SomeD)
  then have "c \<in> set ''abcdefghijklmnopqrstuvwxyz''" and "u \<in> set ''ABCDEFGHIJKLMNOPQRSTUVWXYZ''"
    by (rule set_zip_leftD, rule set_zip_rightD)
  moreover have "toupper_c c = u" using Some by (simp only: toupper_c_def option.case)
  ultimately show ?thesis by blast
qed

lemma lower_letter_plain:
  "\<forall>c \<in> set ''abcdefghijklmnopqrstuvwxyz''.
     \<not> isspace_c c \<and> dec_digit c = None \<and> c \<noteq> CHR ''-'' \<and> c \<noteq> CHR ''+'' \<and> c \<noteq> CHR ''0''"
  by (simp add: isspace_c_def dec_digit_def)

lemma upper_letter_plain:
  "\<forall>c \<in> set ''ABCDEFGHIJKLMNOPQRSTUVWXYZ''.
     \<not> isspace_c c \<and> dec_digit c = None \<and> c \<noteq> CHR ''-'' \<and> c \<noteq> CHR ''+'' \<and> c \<noteq> CHR ''0''"
  by (simp add: isspace_c_def dec_digit_def)

lemma toupper_c_plain:
  "toupper_c c = c \<or>
   (\<not> isspace_c c \<and> dec_digit c = None \<and> c \<noteq> CHR ''-'' \<and> c \<noteq> CHR ''+'' \<and> c \<noteq> CHR ''0'' \<and>
    \<not> isspace_c (toupper_c c) \<and> dec_digit (toupper_c c) = None \<and> toupper_c c \<noteq> CHR ''-'' \<and>
    toupper_c c \<noteq> CHR ''+'' \<and> toupper_c c \<noteq> CHR ''0'')"
  using toupper_c_cases[of c] lower_letter_plain upper_letter_plain by blast

lemma isspace_toupper [simp]: "isspace_c (toupper_c c) = isspace_c c"
  using toupper_c_plain[of c] by auto

lemma dec_digit_toupper [simp]: "dec_digit (toupper_c c) = dec_digit c"
  using toupper_c_plain[of c] by auto

lemma toupper_eq_minus [simp]: "toupper_c c = CHR ''-'' \<longleftrightarrow> c = CHR ''-''"
  using toupper_c_plain[of c] by auto

lemma toupper_eq_plus [simp]: "toupper_c c = CHR ''+'' \<longleftrightarrow> c = CHR ''+''"
  using toupper_c_plain[of c] by auto

lemma toupper_eq_zero [simp]: "toupper_c c = CHR ''0'' \<longleftrightarrow> c = CHR ''0''"
  using toupper_c_plain[of c] by auto

lemma toupper_digit: "dec_digit c \<noteq> None \<Longrightarrow> toupper_c c = c"
  using toupper_c_plain[of c] by auto

lemma digits_value_toupper [simp]:
  "digits_value dec_digit b acc (map toupper_c s) = digits_value dec_digit b acc s"
  by (induction s arbitrary: acc) (auto split: option.splits)

lemma dropWhile_isspace_toupper:
  "dropWhile isspace_c (map toupper_c s) = map toupper_c (dropWhile isspace_c s)"
  by (induction s) auto

lemma atoi_toupper: "atoi (map toupper_c s) = atoi s"
proof (cases "dropWhile isspace_c s")
  case Nil
  then show ?thesis by (simp only: atoi_def dropWhile_isspace_toupper list.map list.case)
next
  case (Cons c cs)
  have "digits_value dec_digit 10 0 (toupper_c c # map toupper_c cs) = digits_value dec_digit 10 0 (c # cs)"
    using digits_value_toupper[of 10 0 "c # cs"] by (simp only: list.map)
  then show ?thesis using Cons by (simp add: atoi_def dropWhile_isspace_toupper)
qed

lemma map_toupper_eq_zero: "map toupper_c s = ''0'' \<longleftrightarrow> s = ''0''"
  by (cases s) auto

lemma find_from_ge: "find_from pat t k = Some r \<Longrightarrow> k \<le> r"
  by (induction t arbitrary: k) (auto split: if_splits dest: Suc_leD)

lemma find_from_here: "find_from pat t k = Some k \<longleftrightarrow> take (length pat) t = pat"
proof (cases t)
  case Nil
  then show ?thesis by auto
next
  case (Cons c cs)
  have "find_from pat cs (Suc k) \<noteq> Some k"
    using find_from_ge[of pat cs "Suc k" k] by auto
  then show ?thesis using Cons by auto
qed

lemma string_find_at_end:
  "length pat \<le> length str \<Longrightarrow>
     (string_find str pat (length str - length pat) = Some (length str - length pat))
       = (take (length pat) (rev str) = rev pat)"
proof -
  assume le: "length pat \<le> length str"
  have "take (length pat) (rev str) = rev (drop (length str - length pat) str)"
    by (simp add: take_rev)
  moreover have "take (length pat) (drop (length str - length pat) str) = drop (length str - length pat) str"
    using le by simp
  ultimately show ?thesis
    by (simp add: string_find_def find_from_here)
qed

lemma block_size_mult_rev:
  "block_size_mult str =
     (if (length str > 2 \<and> take 2 (rev str) = ''BK'') \<or> (length str > 1 \<and> take 1 (rev str) = ''K'')
      then 1024
      else if (length str > 2 \<and> take 2 (rev str) = ''BM'') \<or> (length str > 1 \<and> take 1 (rev str) = ''M'')
      then 1024 * 1024
      else 1)"
proof -
  have a: "length str > 2 \<Longrightarrow> (string_find str p (length str - 2) = Some (length str - 2)) = (take 2 (rev str) = rev p)"
    if "length p = 2" for p
    using string_find_at_end[of p str] that by simp
  have b: "length str > 1 \<Longrightarrow> (string_find str p (length str - 1) = Some (length str - 1)) = (take 1 (rev str) = rev p)"
    if "length p = 1" for p
    using string_find_at_end[of p str] that by simp
  have "length ''KB'' = 2" "length ''MB'' = 2" "length ''K'' = 1" "length ''M'' = 1" by simp_all
  note a' = a[OF this(1)] a[OF this(2)] and b' = b[OF this(3)] b[OF this(4)]
  show ?thesis
    unfolding block_size_mult_def
    using a' b' by (auto simp del: take_Suc_Cons)
qed

subsection \<open>Block size\<close>

lemma dec_digit_plain:
  "dec_digit c \<noteq> None \<Longrightarrow> \<not> isspace_c c \<and> c \<noteq> CHR ''-'' \<and> c \<noteq> CHR ''+''"
proof -
  assume "dec_digit c \<noteq> None"
  then obtain d where "map_of (zip ''0123456789'' [0, 1, 2, 3, 4, 5, 6, 7, 8, 9 :: int]) c = Some d"
    by (auto simp only: dec_digit_def)
  then have "c \<in> set ''0123456789''"
    by (blast dest: map_of_SomeD set_zip_leftD)
  moreover have "\<forall>c \<in> set ''0123456789''. \<not> isspace_c c \<and> c \<noteq> CHR ''-'' \<and> c \<noteq> CHR ''+''"
    by (simp add: isspace_c_def)
  ultimately show ?thesis by blast
qed

lemma digits_value_stops:
  "\<forall>c \<in> set ds. dig c \<noteq> None \<Longrightarrow> r = [] \<or> dig (hd r) = None \<Longrightarrow>
     digits_value dig b acc (ds @ r) = digits_value dig b acc ds"
proof (induction ds arbitrary: acc)
  case Nil
  then show ?case by (cases r) auto
next
  case (Cons d ds)
  then show ?case by (auto split: option.splits)
qed

lemma digits_value_nonneg:
  "0 \<le> acc \<Longrightarrow> 0 < b \<Longrightarrow> \<forall>c d. dig c = Some d \<longrightarrow> 0 \<le> d \<Longrightarrow> 0 \<le> digits_value dig b acc s"
  by (induction s arbitrary: acc) (auto split: option.splits)

lemma dec_digit_nonneg: "dec_digit c = Some d \<Longrightarrow> 0 \<le> d"
proof -
  assume "dec_digit c = Some d"
  then have "(c, d) \<in> set (zip ''0123456789'' [0, 1, 2, 3, 4, 5, 6, 7, 8, 9])"
    unfolding dec_digit_def by (rule map_of_SomeD)
  then have "d \<in> set [0, 1, 2, 3, 4, 5, 6, 7, 8, 9]"
    by (rule set_zip_rightD)
  then show ?thesis by auto
qed

lemma strtol_saturate_in_range:
  "- (2 ^ 63) \<le> v \<Longrightarrow> v < 2 ^ 63 \<Longrightarrow> strtol_saturate v = v"
  by (simp add: strtol_saturate_def)

lemma atoi_digits_then:
  assumes "ds \<noteq> []" and "\<forall>c \<in> set ds. dec_digit c \<noteq> None"
    and "r = [] \<or> dec_digit (hd r) = None"
    and "digits_value dec_digit 10 0 ds < 2 ^ 63"
  shows "atoi (ds @ r) = digits_value dec_digit 10 0 ds"
proof -
  obtain d ds' where ds: "ds = d # ds'" using assms(1) by (cases ds) auto
  then have "dec_digit d \<noteq> None" using assms(2) by simp
  then have "\<not> isspace_c d" "d \<noteq> CHR ''-''" "d \<noteq> CHR ''+''"
    using dec_digit_plain[of d] by auto
  then have "atoi (ds @ r) = strtol_saturate (digits_value dec_digit 10 0 (ds @ r))"
    by (simp add: atoi_def ds)
  then have "atoi (ds @ r) = strtol_saturate (digits_value dec_digit 10 0 ds)"
    using digits_value_stops[OF assms(2) assms(3)] by simp
  moreover have "0 \<le> digits_value dec_digit 10 0 ds"
    using digits_value_nonneg[of 0 10 dec_digit ds] dec_digit_nonneg by simp
  ultimately show ?thesis
    using assms(4) by (simp add: strtol_saturate_in_range)
qed

lemma block_size_mult_digits:
  assumes "ds \<noteq> []" and "\<forall>c \<in> set ds. dec_digit c \<noteq> None"
    and "SFX \<in> set [[], ''K'', ''KB'', ''M'', ''MB'']"
  shows "block_size_mult (ds @ SFX) = word_of_int (suffix_multiplier SFX)"
proof -
  obtain d r where rv: "rev ds = d # r"
    using assms(1) by (cases "rev ds") auto
  then have "d \<in> set ds"
    by (metis list.set_intros(1) set_rev)
  then have dd: "dec_digit d \<noteq> None" using assms(2) by blast
  have nd: "dec_digit CHR ''K'' = None" "dec_digit CHR ''M'' = None" "dec_digit CHR ''B'' = None"
    by (simp_all add: dec_digit_def)
  have d_ne: "d \<noteq> CHR ''K''" "d \<noteq> CHR ''M''" "d \<noteq> CHR ''B''"
    using dd nd by auto
  have len: "0 < length ds" using assms(1) by simp
  consider "SFX = []" | "SFX = ''K''" | "SFX = ''KB''" | "SFX = ''M''" | "SFX = ''MB''"
    using assms(3) by auto
  then show ?thesis
  proof cases
    case 1
    then show ?thesis using d_ne rv by (simp add: block_size_mult_rev suffix_multiplier_def)
  next
    case 2
    then show ?thesis using len by (simp add: block_size_mult_rev suffix_multiplier_def)
  next
    case 3
    then show ?thesis using len by (simp add: block_size_mult_rev suffix_multiplier_def)
  next
    case 4
    then show ?thesis using len by (simp add: block_size_mult_rev suffix_multiplier_def)
  next
    case 5
    then show ?thesis using len by (simp add: block_size_mult_rev suffix_multiplier_def)
  qed
qed

lemma get_block_size_digits_suffix:
  assumes "ds \<noteq> []" and "\<forall>c \<in> set ds. dec_digit c \<noteq> None"
    and "map toupper_c sfx \<in> set [[], ''K'', ''KB'', ''M'', ''MB'']"
    and "FLAGS_block_size fl = ds @ sfx"
    and "word_of_int (digits_value dec_digit 10 0 ds) \<noteq> (0 :: 32 word) \<or> ds @ sfx = ''0''"
    and "digits_value dec_digit 10 0 ds < 2 ^ 63"
  shows "get_block_size fl (- 1) =
     (Inr (word_of_int (digits_value dec_digit 10 0 ds * suffix_multiplier (map toupper_c sfx))),
      word_of_int (digits_value dec_digit 10 0 ds * suffix_multiplier (map toupper_c sfx)))"
proof -
  let ?SFX = "map toupper_c sfx"
  let ?str = "map toupper_c (FLAGS_block_size fl)"
  have "map toupper_c ds = ds"
    by (rule map_idI) (use assms(2) toupper_digit in blast)
  then have str: "?str = ds @ ?SFX"
    by (simp only: assms(4) map_append)
  have hd: "?SFX = [] \<or> dec_digit (hd ?SFX) = None"
  proof -
    have "\<forall>x \<in> set [[], ''K'', ''KB'', ''M'', ''MB'']. x = [] \<or> dec_digit (hd x) = None"
      by (simp add: dec_digit_def)
    from bspec[OF this assms(3)] show ?thesis .
  qed
  have v: "atoi ?str = digits_value dec_digit 10 0 ds"
    unfolding str by (rule atoi_digits_then[OF assms(1) assms(2) hd assms(6)])
  have m: "block_size_mult ?str = word_of_int (suffix_multiplier ?SFX)"
    unfolding str by (rule block_size_mult_digits[OF assms(1) assms(2) assms(3)])
  have z: "?str = ''0'' \<longleftrightarrow> ds @ sfx = ''0''"
    by (simp only: assms(4) map_toupper_eq_zero)
  have ok: "\<not> (word_of_int (atoi ?str) = (0 :: 32 word) \<and> ?str \<noteq> ''0'')"
    unfolding v z using assms(5) by blast
  have neg: "sint (- 1 :: 32 word) < 0" by simp
  show ?thesis
    unfolding get_block_size_def Let_def
    using ok by (simp only: neg if_True if_False m v of_int_mult[symmetric]) 
qed

text \<open>
  A decimal prefix beyond the range of \<open>long\<close>: \<open>strtol\<close> saturates at \<open>LONG_MAX\<close>,
  whose low 32 bits are all ones.
\<close>

lemma get_block_size_saturates:
  "fst (get_block_size (default_flags\<lparr>FLAGS_block_size := ''99999999999999999999''\<rparr>) (- 1))
     = Inr (- 1)"
  by (simp add: get_block_size_def default_flags_def toupper_c_def block_size_mult_def
        string_find_def atoi_def strtol_saturate_def isspace_c_def dec_digit_def)

lemma get_block_size_non_numeric:
  assumes "atoi (FLAGS_block_size fl) = 0" and "FLAGS_block_size fl \<noteq> ''0''"
  shows "fst (get_block_size fl (- 1)) = Inl (runtime_error ''invalid block size format'')"
  using assms by (simp add: get_block_size_def atoi_toupper map_toupper_eq_zero)

lemma sint_word_of_int_32:
  "0 \<le> x \<Longrightarrow> x < 2 ^ 31 \<Longrightarrow> sint (word_of_int x :: 32 word) = x"
  by (simp add: sint_sbintrunc' signed_take_bit_int_eq_self)

text \<open>
  Claim C3. Starting from the unset static, \<open>get_block_size\<close> reads the stored string
  as a numeric prefix times a multiplier chosen by the suffix, whatever the case of the
  suffix letters: for a non-empty run of decimal digits \<open>ds\<close> whose value is in the
  range of \<open>long\<close> (below \<open>2 ^ 63\<close>), followed by a suffix whose upper-case form is
  empty, \<open>K\<close>, \<open>KB\<close>, \<open>M\<close> or \<open>MB\<close>, the result is the value of \<open>ds\<close> times 1,
  1024, 1024, 1024 * 1024, 1024 * 1024 (as a 32-bit integer; the exact product whenever
  it is below \<open>2 ^ 31\<close>), provided the prefix is not zero or the string is literally
  \<open>0\<close>. \<open>4K\<close> gives 4096, \<open>2MB\<close> gives 2097152, \<open>0\<close> gives 0, \<open>-1\<close>
  gives the negative value \<open>-1\<close>. Every string whose numeric prefix parses to 0 and
  which is not literally \<open>0\<close>, such as \<open>abc\<close> or the empty string, raises "invalid
  block size format".
\<close>

theorem get_block_size_prefix_times_multiplier:
  "(ds \<noteq> [] \<and> (\<forall>c \<in> set ds. dec_digit c \<noteq> None)
      \<and> map toupper_c sfx \<in> set [[], ''K'', ''KB'', ''M'', ''MB'']
      \<and> FLAGS_block_size fl = ds @ sfx
      \<and> (word_of_int (digits_value dec_digit 10 0 ds) \<noteq> (0 :: 32 word) \<or> ds @ sfx = ''0'')
      \<and> digits_value dec_digit 10 0 ds < 2 ^ 63
    \<longrightarrow> get_block_size fl (- 1) =
          (Inr (word_of_int (digits_value dec_digit 10 0 ds * suffix_multiplier (map toupper_c sfx))),
           word_of_int (digits_value dec_digit 10 0 ds * suffix_multiplier (map toupper_c sfx)))
        \<and> (digits_value dec_digit 10 0 ds * suffix_multiplier (map toupper_c sfx) < 2 ^ 31 \<longrightarrow>
            sint (word_of_int (digits_value dec_digit 10 0 ds * suffix_multiplier (map toupper_c sfx)) :: 32 word)
              = digits_value dec_digit 10 0 ds * suffix_multiplier (map toupper_c sfx)))
   \<and> fst (get_block_size (default_flags\<lparr>FLAGS_block_size := ''4K''\<rparr>) (- 1)) = Inr 4096
   \<and> fst (get_block_size (default_flags\<lparr>FLAGS_block_size := ''2MB''\<rparr>) (- 1)) = Inr 2097152
   \<and> fst (get_block_size (default_flags\<lparr>FLAGS_block_size := ''0''\<rparr>) (- 1)) = Inr 0
   \<and> fst (get_block_size (default_flags\<lparr>FLAGS_block_size := ''-1''\<rparr>) (- 1)) = Inr (- 1)
   \<and> sint (- 1 :: 32 word) < 0
   \<and> (atoi (FLAGS_block_size fl') = 0 \<and> FLAGS_block_size fl' \<noteq> ''0'' \<longrightarrow>
        fst (get_block_size fl' (- 1)) = Inl (runtime_error ''invalid block size format''))
   \<and> fst (get_block_size (default_flags\<lparr>FLAGS_block_size := ''abc''\<rparr>) (- 1))
        = Inl (runtime_error ''invalid block size format'')
   \<and> fst (get_block_size (default_flags\<lparr>FLAGS_block_size := []\<rparr>) (- 1))
        = Inl (runtime_error ''invalid block size format'')"
proof -
  have ev: "fst (get_block_size (default_flags\<lparr>FLAGS_block_size := ''4K''\<rparr>) (- 1)) = Inr 4096"
    "fst (get_block_size (default_flags\<lparr>FLAGS_block_size := ''2MB''\<rparr>) (- 1)) = Inr 2097152"
    "fst (get_block_size (default_flags\<lparr>FLAGS_block_size := ''0''\<rparr>) (- 1)) = Inr 0"
    "fst (get_block_size (default_flags\<lparr>FLAGS_block_size := ''-1''\<rparr>) (- 1)) = Inr (- 1)"
    "fst (get_block_size (default_flags\<lparr>FLAGS_block_size := ''abc''\<rparr>) (- 1))
        = Inl (runtime_error ''invalid block size format'')"
    "fst (get_block_size (default_flags\<lparr>FLAGS_block_size := []\<rparr>) (- 1))
        = Inl (runtime_error ''invalid block size format'')"
    by (simp_all add: get_block_size_def default_flags_def toupper_c_def block_size_mult_def
          string_find_def atoi_def strtol_saturate_def isspace_c_def dec_digit_def)
  have nn: "0 \<le> digits_value dec_digit 10 0 ds * suffix_multiplier (map toupper_c sfx)"
    using digits_value_nonneg[of 0 10 dec_digit ds] dec_digit_nonneg
    by (simp add: suffix_multiplier_def)
  have gen: "ds \<noteq> [] \<and> (\<forall>c \<in> set ds. dec_digit c \<noteq> None)
      \<and> map toupper_c sfx \<in> set [[], ''K'', ''KB'', ''M'', ''MB'']
      \<and> FLAGS_block_size fl = ds @ sfx
      \<and> (word_of_int (digits_value dec_digit 10 0 ds) \<noteq> (0 :: 32 word) \<or> ds @ sfx = ''0'')
      \<and> digits_value dec_digit 10 0 ds < 2 ^ 63
    \<longrightarrow> get_block_size fl (- 1) =
          (Inr (word_of_int (digits_value dec_digit 10 0 ds * suffix_multiplier (map toupper_c sfx))),
           word_of_int (digits_value dec_digit 10 0 ds * suffix_multiplier (map toupper_c sfx)))
        \<and> (digits_value dec_digit 10 0 ds * suffix_multiplier (map toupper_c sfx) < 2 ^ 31 \<longrightarrow>
            sint (word_of_int (digits_value dec_digit 10 0 ds * suffix_multiplier (map toupper_c sfx)) :: 32 word)
              = digits_value dec_digit 10 0 ds * suffix_multiplier (map toupper_c sfx))"
  proof (intro impI conjI)
    assume h: "ds \<noteq> [] \<and> (\<forall>c \<in> set ds. dec_digit c \<noteq> None)
      \<and> map toupper_c sfx \<in> set [[], ''K'', ''KB'', ''M'', ''MB'']
      \<and> FLAGS_block_size fl = ds @ sfx
      \<and> (word_of_int (digits_value dec_digit 10 0 ds) \<noteq> (0 :: 32 word) \<or> ds @ sfx = ''0'')
      \<and> digits_value dec_digit 10 0 ds < 2 ^ 63"
    show "get_block_size fl (- 1) =
          (Inr (word_of_int (digits_value dec_digit 10 0 ds * suffix_multiplier (map toupper_c sfx))),
           word_of_int (digits_value dec_digit 10 0 ds * suffix_multiplier (map toupper_c sfx)))"
      by (rule get_block_size_digits_suffix) (use h in blast)+
  next
    assume "digits_value dec_digit 10 0 ds * suffix_multiplier (map toupper_c sfx) < 2 ^ 31"
    then show "sint (word_of_int (digits_value dec_digit 10 0 ds * suffix_multiplier (map toupper_c sfx)) :: 32 word)
              = digits_value dec_digit 10 0 ds * suffix_multiplier (map toupper_c sfx)"
      by (rule sint_word_of_int_32[OF nn])
  qed
  have non: "atoi (FLAGS_block_size fl') = 0 \<and> FLAGS_block_size fl' \<noteq> ''0'' \<longrightarrow>
        fst (get_block_size fl' (- 1)) = Inl (runtime_error ''invalid block size format'')"
    using get_block_size_non_numeric[of fl'] by blast
  have neg: "sint (- 1 :: 32 word) < 0" by simp
  show ?thesis
    by (intro conjI gen ev non neg)
qed


text \<open>An instance: \<open>4k\<close> and \<open>abc\<close>.\<close>

theorem get_block_size_prefix_times_multiplier_witness:
  "get_block_size (default_flags\<lparr>FLAGS_block_size := ''4k''\<rparr>) (- 1) = (Inr 4096, 4096)
   \<and> sint (4096 :: 32 word) = 4096
   \<and> atoi ''abc'' = 0
   \<and> fst (get_block_size (default_flags\<lparr>FLAGS_block_size := ''abc''\<rparr>) (- 1))
        = Inl (runtime_error ''invalid block size format'')"
  using get_block_size_prefix_times_multiplier[of "''4''" "''k''"
      "default_flags\<lparr>FLAGS_block_size := ''4k''\<rparr>" "default_flags\<lparr>FLAGS_block_size := ''abc''\<rparr>"]
  by (simp add: dec_digit_def toupper_c_def suffix_multiplier_def atoi_def strtol_saturate_def
        isspace_c_def)

subsection \<open>Memory placement accessors\<close>

text \<open>
  On the unset static, \<open>get_in_mem\<close> is decided by the lower-cased flag alone: the four
  documented strings give their enumerators, everything else raises.
\<close>

lemma get_in_mem_fresh:
  "get_in_mem fl None =
     (let str = map tolower_c (FLAGS_in_mem fl) in
      if str = ''cache'' then (Inr cache, Some cache)
      else if str = ''llc'' then (Inr llc, Some llc)
      else if str = ''ram'' then (Inr ram, Some ram)
      else if str = ''pmem'' then (Inr pmem, Some pmem)
      else (Inl (runtime_error ''invalid input memory location''), None))"
  by (simp add: get_in_mem_def)

lemma get_out_mem_fresh:
  "get_out_mem fl None =
     (let str = map tolower_c (FLAGS_out_mem fl) in
      if str = ''ram'' then (Inr ram, Some ram)
      else if str = ''pmem'' then (Inr pmem, Some pmem)
      else if str = CHR ''c'' # CHR 0xD1 # CHR 0x81 # ''_ram'' then (Inr cc_ram, Some cc_ram)
      else if str = CHR 0xD1 # CHR 0x81 # CHR 0xD1 # CHR 0x81 # ''_pmem''
        then (Inr cc_pmem, Some cc_pmem)
      else (Inl (runtime_error ''invalid output memory location''), None))"
  by (simp add: get_out_mem_def)

lemma get_out_mem_default: "get_out_mem default_flags None = (Inr cc_ram, Some cc_ram)"
  by (simp add: get_out_mem_def default_flags_def tolower_c_def)

text \<open>
  Claim C1 asks \<open>get_out_mem\<close> to accept the ASCII strings \<open>cc_ram\<close> and \<open>cc_pmem\<close>.
  The literals the source compares with are not ASCII (the second letter of its
  \<open>cc_ram\<close> and both first letters of its \<open>cc_pmem\<close> are the Cyrillic U+0441), so the
  ASCII spellings fall through to the error branch.
\<close>

theorem get_out_mem_rejects_ascii_cc:
  "get_out_mem (default_flags\<lparr>FLAGS_out_mem := ''cc_ram''\<rparr>) None
     = (Inl (runtime_error ''invalid output memory location''), None)
   \<and> get_out_mem (default_flags\<lparr>FLAGS_out_mem := ''cc_pmem''\<rparr>) None
     = (Inl (runtime_error ''invalid output memory location''), None)"
  by (simp add: get_out_mem_def default_flags_def tolower_c_def)

subsection \<open>System information probe: the descriptor loop\<close>

lemma cpuinfo_line_key_value:
  "cpuinfo_line line inf0 =
     (case key_value line of
        None \<Rightarrow> inf0
      | Some (key, val) \<Rightarrow>
          if key = ''processor'' then
               inf0\<lparr>cpu_logical_cores := cpu_logical_cores inf0 + 1\<rparr>
             else if key = ''physical id'' then
               inf0\<lparr>cpu_sockets := max (cpu_sockets inf0) (word_of_int (atoi val) + 1)\<rparr>
             else if cpu_physical_per_socket inf0 = 0 \<and> key = ''cpu cores'' then
               inf0\<lparr>cpu_physical_per_socket :=
                      max (cpu_physical_per_socket inf0) (word_of_int (atoi val))\<rparr>
             else if cpu_model_name inf0 = [] \<and> key = ''model name'' then
               inf0\<lparr>cpu_model_name := val\<rparr>
             else if cpu_model inf0 = 0 \<and> key = ''model'' then
               inf0\<lparr>cpu_model := word_of_int (atoi val)\<rparr>
             else if cpu_microcode inf0 = 0 \<and> key = ''microcode'' then
               inf0\<lparr>cpu_microcode := word_of_int (strtol16 val)\<rparr>
             else if cpu_stepping inf0 = 0 \<and> key = ''stepping'' then
               inf0\<lparr>cpu_stepping := word_of_int (atoi val)\<rparr>
             else inf0)"
  unfolding cpuinfo_line_def key_value_def Let_def
  by (simp split: option.split)

lemma values_of_Nil [simp]: "values_of k [] = []"
  by (simp add: values_of_def List.map_filter_simps)

lemma values_of_Cons:
  "values_of k (line # rest) =
     (case key_value line of
        None \<Rightarrow> values_of k rest
      | Some (key, val) \<Rightarrow> if key = k then val # values_of k rest else values_of k rest)"
  by (simp add: values_of_def List.map_filter_simps split: option.split)

lemma logical_cores_step:
  "cpu_logical_cores (cpuinfo_line line inf0) =
     cpu_logical_cores inf0 + of_nat (length (values_of ''processor'' [line]))"
  by (simp add: cpuinfo_line_key_value values_of_Cons split: option.split)

lemma sockets_step:
  "cpu_sockets (cpuinfo_line line inf0) =
     foldl max (cpu_sockets inf0) (map (\<lambda>v. word_of_int (atoi v) + 1) (values_of ''physical id'' [line]))"
  by (simp add: cpuinfo_line_key_value values_of_Cons split: option.split)

lemma per_socket_step:
  "cpu_physical_per_socket (cpuinfo_line line inf0) =
     (if cpu_physical_per_socket inf0 \<noteq> 0 then cpu_physical_per_socket inf0
      else first_nonzero (map (\<lambda>v. word_of_int (atoi v)) (values_of ''cpu cores'' [line])))"
  by (simp add: cpuinfo_line_key_value values_of_Cons first_nonzero_def split: option.split)

lemma model_name_step:
  "cpu_model_name (cpuinfo_line line inf0) =
     (if cpu_model_name inf0 \<noteq> [] then cpu_model_name inf0
      else first_nonempty (values_of ''model name'' [line]))"
  by (simp add: cpuinfo_line_key_value values_of_Cons first_nonempty_def split: option.split)

lemma model_step:
  "cpu_model (cpuinfo_line line inf0) =
     (if cpu_model inf0 \<noteq> 0 then cpu_model inf0
      else first_nonzero (map (\<lambda>v. word_of_int (atoi v)) (values_of ''model'' [line])))"
  by (simp add: cpuinfo_line_key_value values_of_Cons first_nonzero_def split: option.split)

lemma microcode_step:
  "cpu_microcode (cpuinfo_line line inf0) =
     (if cpu_microcode inf0 \<noteq> 0 then cpu_microcode inf0
      else first_nonzero (map (\<lambda>v. word_of_int (strtol16 v)) (values_of ''microcode'' [line])))"
  by (simp add: cpuinfo_line_key_value values_of_Cons first_nonzero_def split: option.split)

lemma stepping_step:
  "cpu_stepping (cpuinfo_line line inf0) =
     (if cpu_stepping inf0 \<noteq> 0 then cpu_stepping inf0
      else first_nonzero (map (\<lambda>v. word_of_int (atoi v)) (values_of ''stepping'' [line])))"
  by (simp add: cpuinfo_line_key_value values_of_Cons first_nonzero_def split: option.split)

lemma values_of_append: "values_of k (a @ b) = values_of k a @ values_of k b"
  by (simp add: values_of_def List.map_filter_def)

lemma values_of_Cons_append: "values_of k (line # rest) = values_of k [line] @ values_of k rest"
  using values_of_append[of k "[line]" rest] by simp

lemma first_nonzero_append:
  "first_nonzero (xs @ ys) = (if first_nonzero xs \<noteq> 0 then first_nonzero xs else first_nonzero ys)"
  by (induction xs) (auto simp: first_nonzero_def)

lemma first_nonempty_append:
  "first_nonempty (xs @ ys) = (if first_nonempty xs \<noteq> [] then first_nonempty xs else first_nonempty ys)"
  by (induction xs) (auto simp: first_nonempty_def)

lemma logical_cores_lines:
  "cpu_logical_cores (cpuinfo_lines lines inf0) =
     cpu_logical_cores inf0 + of_nat (length (values_of ''processor'' lines))"
proof (induction lines arbitrary: inf0)
  case Nil
  then show ?case by simp
next
  case (Cons line rest)
  show ?case
    by (simp only: cpuinfo_lines.simps Cons.IH logical_cores_step
          values_of_Cons_append[of _ line rest] length_append of_nat_add add.assoc)
qed

lemma sockets_lines:
  "cpu_sockets (cpuinfo_lines lines inf0) =
     foldl max (cpu_sockets inf0)
       (map (\<lambda>v. word_of_int (atoi v) + 1) (values_of ''physical id'' lines))"
proof (induction lines arbitrary: inf0)
  case Nil
  then show ?case by simp
next
  case (Cons line rest)
  show ?case
    by (simp only: cpuinfo_lines.simps Cons.IH sockets_step
          values_of_Cons_append[of _ line rest] map_append foldl_append)
qed

lemma per_socket_lines:
  "cpu_physical_per_socket (cpuinfo_lines lines inf0) =
     (if cpu_physical_per_socket inf0 \<noteq> 0 then cpu_physical_per_socket inf0
      else first_nonzero (map (\<lambda>v. word_of_int (atoi v)) (values_of ''cpu cores'' lines)))"
proof (induction lines arbitrary: inf0)
  case Nil
  then show ?case by (simp add: first_nonzero_def)
next
  case (Cons line rest)
  show ?case
    unfolding cpuinfo_lines.simps Cons.IH per_socket_step
      values_of_Cons_append[of _ line rest] map_append first_nonzero_append
    by simp
qed

lemma model_name_lines:
  "cpu_model_name (cpuinfo_lines lines inf0) =
     (if cpu_model_name inf0 \<noteq> [] then cpu_model_name inf0
      else first_nonempty (values_of ''model name'' lines))"
proof (induction lines arbitrary: inf0)
  case Nil
  then show ?case by (simp add: first_nonempty_def)
next
  case (Cons line rest)
  show ?case
    unfolding cpuinfo_lines.simps Cons.IH model_name_step
      values_of_Cons_append[of _ line rest] first_nonempty_append
    by simp
qed

lemma model_lines:
  "cpu_model (cpuinfo_lines lines inf0) =
     (if cpu_model inf0 \<noteq> 0 then cpu_model inf0
      else first_nonzero (map (\<lambda>v. word_of_int (atoi v)) (values_of ''model'' lines)))"
proof (induction lines arbitrary: inf0)
  case Nil
  then show ?case by (simp add: first_nonzero_def)
next
  case (Cons line rest)
  show ?case
    unfolding cpuinfo_lines.simps Cons.IH model_step
      values_of_Cons_append[of _ line rest] map_append first_nonzero_append
    by simp
qed

lemma microcode_lines:
  "cpu_microcode (cpuinfo_lines lines inf0) =
     (if cpu_microcode inf0 \<noteq> 0 then cpu_microcode inf0
      else first_nonzero (map (\<lambda>v. word_of_int (strtol16 v)) (values_of ''microcode'' lines)))"
proof (induction lines arbitrary: inf0)
  case Nil
  then show ?case by (simp add: first_nonzero_def)
next
  case (Cons line rest)
  show ?case
    unfolding cpuinfo_lines.simps Cons.IH microcode_step
      values_of_Cons_append[of _ line rest] map_append first_nonzero_append
    by simp
qed

lemma stepping_lines:
  "cpu_stepping (cpuinfo_lines lines inf0) =
     (if cpu_stepping inf0 \<noteq> 0 then cpu_stepping inf0
      else first_nonzero (map (\<lambda>v. word_of_int (atoi v)) (values_of ''stepping'' lines)))"
proof (induction lines arbitrary: inf0)
  case Nil
  then show ?case by (simp add: first_nonzero_def)
next
  case (Cons line rest)
  show ?case
    unfolding cpuinfo_lines.simps Cons.IH stepping_step
      values_of_Cons_append[of _ line rest] map_append first_nonzero_append
    by simp
qed

text \<open>
  A first \<open>model\<close> line whose numeral is beyond the range of \<open>long\<close> is captured as
  the low 32 bits of \<open>LONG_MAX\<close>; the later line is ignored.
\<close>

lemma cpu_model_saturates:
  "cpu_model (cpuinfo_lines [''model : 9223372036854775808'', ''model : 7'']
       (default_info\<lparr>host_name := ''host'', kernel := ''6.1''\<rparr>)) = 0xFFFFFFFF"
  by (simp add: key_value_def cpuinfo_line_def string_find_def
        trim_def isspace_c_def atoi_def strtol_saturate_def dec_digit_def default_info_def)

text \<open>
  Claim C8, as stated, fails for the keys said to be captured at their first occurrence:
  a first \<open>stepping\<close> line with the value 0 leaves the field at 0, which also means
  "not captured yet", and a later \<open>stepping\<close> line is not ignored.
\<close>

theorem cpuinfo_first_occurrence_counterexample:
  "values_of ''stepping'' [''stepping : 0'', ''stepping : 5''] = [''0'', ''5'']
   \<and> (word_of_int (atoi ''0'') :: 32 word) = 0
   \<and> cpu_stepping (cpuinfo_lines [''stepping : 0'', ''stepping : 5'']
         (default_info\<lparr>host_name := ''host'', kernel := ''6.1''\<rparr>)) = 5
   \<and> cpu_stepping (cpuinfo_lines [''stepping : 0'', ''stepping : 5'']
         (default_info\<lparr>host_name := ''host'', kernel := ''6.1''\<rparr>))
       \<noteq> word_of_int (atoi (hd (values_of ''stepping'' [''stepping : 0'', ''stepping : 5''])))"
  by (simp add: values_of_def List.map_filter_simps key_value_def cpuinfo_line_def string_find_def
        trim_def isspace_c_def atoi_def strtol_saturate_def dec_digit_def default_info_def)

text \<open>
  Claim C8, amended. After the loop over the lines, starting as the build does from the
  default record with the host and kernel names set:
  the logical-core count is the number of \<open>processor\<close> lines; the socket count is the
  maximum, over the \<open>physical id\<close> lines, of the index plus one (0 when there is none);
  \<open>cpu cores\<close>, \<open>model\<close>, \<open>microcode\<close> (read as hexadecimal) and \<open>stepping\<close> hold
  the first value of their key that is not zero, and \<open>model name\<close> the first value
  that is not empty: lines of the same key after that one are ignored, lines before it
  (with the value zero or empty) leave the field as it was.
\<close>

theorem cpuinfo_keys_accumulate:
  "cpu_logical_cores (cpuinfo_lines lines (default_info\<lparr>host_name := hn, kernel := kr\<rparr>))
     = of_nat (length (values_of ''processor'' lines))
   \<and> cpu_sockets (cpuinfo_lines lines (default_info\<lparr>host_name := hn, kernel := kr\<rparr>))
     = foldl max 0 (map (\<lambda>v. word_of_int (atoi v) + 1) (values_of ''physical id'' lines))
   \<and> cpu_physical_per_socket (cpuinfo_lines lines (default_info\<lparr>host_name := hn, kernel := kr\<rparr>))
     = first_nonzero (map (\<lambda>v. word_of_int (atoi v)) (values_of ''cpu cores'' lines))
   \<and> cpu_model_name (cpuinfo_lines lines (default_info\<lparr>host_name := hn, kernel := kr\<rparr>))
     = first_nonempty (values_of ''model name'' lines)
   \<and> cpu_model (cpuinfo_lines lines (default_info\<lparr>host_name := hn, kernel := kr\<rparr>))
     = first_nonzero (map (\<lambda>v. word_of_int (atoi v)) (values_of ''model'' lines))
   \<and> cpu_microcode (cpuinfo_lines lines (default_info\<lparr>host_name := hn, kernel := kr\<rparr>))
     = first_nonzero (map (\<lambda>v. word_of_int (strtol16 v)) (values_of ''microcode'' lines))
   \<and> cpu_stepping (cpuinfo_lines lines (default_info\<lparr>host_name := hn, kernel := kr\<rparr>))
     = first_nonzero (map (\<lambda>v. word_of_int (atoi v)) (values_of ''stepping'' lines))"
  by (simp add: logical_cores_lines sockets_lines per_socket_lines model_name_lines model_lines
        microcode_lines stepping_lines default_info_def)

subsection \<open>System information probe: built once\<close>

lemma get_sys_info_first_call:
  assumes "proc_cpuinfo env = Some lines"
  shows "get_sys_info env initial_statics =
     Some (Inr (build_info env lines
                 (default_info\<lparr>host_name := uname_nodename env, kernel := uname_release env\<rparr>)),
           \<lparr>info = build_info env lines
                 (default_info\<lparr>host_name := uname_nodename env, kernel := uname_release env\<rparr>),
            is_setup = True, guard_locked = False,
            printed = [build_info env lines
                 (default_info\<lparr>host_name := uname_nodename env, kernel := uname_release env\<rparr>)]\<rparr>)"
  using assms by (simp add: get_sys_info_def initial_statics_def Let_def)

lemma get_sys_info_when_setup:
  assumes "is_setup st" and "\<not> guard_locked st"
  shows "get_sys_info env st = Some (Inr (info st), st)"
  using assms by (simp add: get_sys_info_def Let_def)

lemma later_calls_when_setup:
  assumes "is_setup st" and "\<not> guard_locked st"
  shows "later_calls envs st = Some (replicate (length envs) (Inr (info st)), st)"
  using assms by (induction envs) (simp_all add: get_sys_info_when_setup)

lemma get_sys_info_open_fails:
  assumes "proc_cpuinfo env = None"
  shows "\<exists>st. get_sys_info env initial_statics = Some (Inl (runtime_error ''Failed to open /proc/cpuinfo''), st)
           \<and> \<not> is_setup st \<and> guard_locked st \<and> get_sys_info env' st = None"
  using assms by (simp add: get_sys_info_def initial_statics_def Let_def)

text \<open>
  Claim C5, as stated, fails when \<open>/proc/cpuinfo\<close> cannot be opened: the first call
  raises without setting \<open>is_setup\<close>, and a later call does not return the snapshot.
\<close>

theorem get_sys_info_open_failure_counterexample:
  "\<exists>st. get_sys_info \<lparr>uname_nodename = ''host'', uname_release = ''6.1'',
              proc_cpuinfo = None, dispatcher = []\<rparr> initial_statics
           = Some (Inl (runtime_error ''Failed to open /proc/cpuinfo''), st)
         \<and> \<not> is_setup st
         \<and> get_sys_info \<lparr>uname_nodename = ''host'', uname_release = ''6.1'',
              proc_cpuinfo = None, dispatcher = []\<rparr> st = None"
  by (simp add: get_sys_info_def initial_statics_def Let_def)

text \<open>
  Claim C5, amended. When \<open>/proc/cpuinfo\<close> can be opened, the first call of
  \<open>get_sys_info\<close> performs the build, prints the summary once, sets \<open>is_setup\<close> and
  releases the mutex. Every later call, whatever the surroundings have become, returns
  the same snapshot and leaves the statics as they are: the build block is not entered
  again (the summary stays printed once), for one later call and for any sequence of
  them. When the file cannot be opened, the first call raises "Failed to open
  /proc/cpuinfo"; \<open>is_setup\<close> stays false and no summary is printed.
\<close>

theorem get_sys_info_builds_once:
  "(proc_cpuinfo env = Some lines \<longrightarrow>
     (\<exists>snapshot st1.
        get_sys_info env initial_statics = Some (Inr snapshot, st1)
        \<and> snapshot = build_info env lines
             (default_info\<lparr>host_name := uname_nodename env, kernel := uname_release env\<rparr>)
        \<and> info st1 = snapshot \<and> is_setup st1 \<and> \<not> guard_locked st1 \<and> printed st1 = [snapshot]
        \<and> (\<forall>env'. get_sys_info env' st1 = Some (Inr snapshot, st1))
        \<and> (\<forall>envs. later_calls envs st1 = Some (replicate (length envs) (Inr snapshot), st1))))
   \<and> (proc_cpuinfo env = None \<longrightarrow>
     (\<exists>st. get_sys_info env initial_statics
               = Some (Inl (runtime_error ''Failed to open /proc/cpuinfo''), st)
           \<and> \<not> is_setup st \<and> printed st = []))"
proof (intro conjI impI)
  assume a: "proc_cpuinfo env = Some lines"
  let ?snap = "build_info env lines
             (default_info\<lparr>host_name := uname_nodename env, kernel := uname_release env\<rparr>)"
  let ?st1 = "\<lparr>info = ?snap, is_setup = True, guard_locked = False, printed = [?snap]\<rparr>"
  have 1: "get_sys_info env initial_statics = Some (Inr ?snap, ?st1)"
    by (rule get_sys_info_first_call[OF a])
  have 2: "get_sys_info env' ?st1 = Some (Inr ?snap, ?st1)" for env'
    using get_sys_info_when_setup[of ?st1 env'] by simp
  have 3: "later_calls envs ?st1 = Some (replicate (length envs) (Inr ?snap), ?st1)" for envs
    using later_calls_when_setup[of ?st1 envs] by simp
  show "\<exists>snapshot st1.
        get_sys_info env initial_statics = Some (Inr snapshot, st1)
        \<and> snapshot = ?snap
        \<and> info st1 = snapshot \<and> is_setup st1 \<and> \<not> guard_locked st1 \<and> printed st1 = [snapshot]
        \<and> (\<forall>env'. get_sys_info env' st1 = Some (Inr snapshot, st1))
        \<and> (\<forall>envs. later_calls envs st1 = Some (replicate (length envs) (Inr snapshot), st1))"
    apply (rule exI[of _ ?snap])
    apply (rule exI[of _ ?st1])
    using 1 2 3 by simp
next
  assume "proc_cpuinfo env = None"
  then show "\<exists>st. get_sys_info env initial_statics
               = Some (Inl (runtime_error ''Failed to open /proc/cpuinfo''), st)
           \<and> \<not> is_setup st \<and> printed st = []"
    by (simp add: get_sys_info_def initial_statics_def Let_def)
qed

text \<open>
  Two instances: a first call that builds, followed by a call in changed surroundings;
  and a first call that cannot open the file.
\<close>

theorem get_sys_info_builds_once_witness:
  "(\<exists>snapshot st1.
     get_sys_info \<lparr>uname_nodename = ''host'', uname_release = ''6.1'',
         proc_cpuinfo = Some [''processor : 0'', ''physical id : 0'', ''cpu cores : 2''],
         dispatcher = [\<lparr>numa_id = 0\<rparr>, \<lparr>numa_id = - 1\<rparr>]\<rparr> initial_statics
       = Some (Inr snapshot, st1)
     \<and> is_setup st1 \<and> printed st1 = [snapshot]
     \<and> get_sys_info \<lparr>uname_nodename = ''other'', uname_release = ''6.2'',
         proc_cpuinfo = None, dispatcher = []\<rparr> st1 = Some (Inr snapshot, st1))
   \<and> (\<exists>st. get_sys_info \<lparr>uname_nodename = ''host'', uname_release = ''6.1'',
         proc_cpuinfo = None, dispatcher = []\<rparr> initial_statics
       = Some (Inl (runtime_error ''Failed to open /proc/cpuinfo''), st)
     \<and> \<not> is_setup st)"
proof
  show "\<exists>snapshot st1.
     get_sys_info \<lparr>uname_nodename = ''host'', uname_release = ''6.1'',
         proc_cpuinfo = Some [''processor : 0'', ''physical id : 0'', ''cpu cores : 2''],
         dispatcher = [\<lparr>numa_id = 0\<rparr>, \<lparr>numa_id = - 1\<rparr>]\<rparr> initial_statics
       = Some (Inr snapshot, st1)
     \<and> is_setup st1 \<and> printed st1 = [snapshot]
     \<and> get_sys_info \<lparr>uname_nodename = ''other'', uname_release = ''6.2'',
         proc_cpuinfo = None, dispatcher = []\<rparr> st1 = Some (Inr snapshot, st1)"
    using get_sys_info_builds_once[of "\<lparr>uname_nodename = ''host'', uname_release = ''6.1'',
         proc_cpuinfo = Some [''processor : 0'', ''physical id : 0'', ''cpu cores : 2''],
         dispatcher = [\<lparr>numa_id = 0\<rparr>, \<lparr>numa_id = - 1\<rparr>]\<rparr>"
      "[''processor : 0'', ''physical id : 0'', ''cpu cores : 2'']"]
    by (simp only: sys_env.simps simp_thms option.simps) blast
next
  show "\<exists>st. get_sys_info \<lparr>uname_nodename = ''host'', uname_release = ''6.1'',
         proc_cpuinfo = None, dispatcher = []\<rparr> initial_statics
       = Some (Inl (runtime_error ''Failed to open /proc/cpuinfo''), st)
     \<and> \<not> is_setup st"
    using get_sys_info_builds_once[of "\<lparr>uname_nodename = ''host'', uname_release = ''6.1'',
         proc_cpuinfo = None, dispatcher = []\<rparr>" "[]"]
    by (simp only: sys_env.simps simp_thms option.simps) blast
qed

subsection \<open>Hardware readiness check\<close>

lemma init_hw_calls:
  "snd (init_hw lib) = upto_first_failure (hw_steps lib)"
  by (simp add: init_hw_def hw_steps_def Let_def split: prod.splits)

lemma init_hw_outcome:
  "fst (init_hw lib) =
     (case find (\<lambda>c. snd c \<noteq> QPL_STS_OK) (hw_steps lib) of
        None \<Rightarrow> Inr True
      | Some c \<Rightarrow> Inl (runtime_error (''hw init failed in '' @ step_name (step_of (fst c)))))"
  by (simp add: init_hw_def hw_steps_def Let_def split: prod.splits)

lemma find_None_all: "(find P xs = None) = (\<forall>x \<in> set xs. \<not> P x)"
  by (induction xs) auto

lemma init_hw_own_calls:
  "distinct (map (step_of \<circ> fst) (snd (init_hw lib)))
   \<and> (\<forall>c \<in> set (butlast (snd (init_hw lib))). snd c = QPL_STS_OK)
   \<and> ((\<exists>e. fst (init_hw lib) = Inl e) \<longleftrightarrow> (\<exists>c \<in> set (snd (init_hw lib)). snd c \<noteq> QPL_STS_OK))
   \<and> (fst (init_hw lib) = Inr True \<longleftrightarrow> (\<forall>c \<in> set (snd (init_hw lib)). snd c = QPL_STS_OK))
   \<and> (fst (init_hw lib) = Inr True \<longrightarrow>
        map (step_of \<circ> fst) (snd (init_hw lib))
          = [step_get_job_size, step_init_job, step_submit_job, step_wait_job, step_fini_job]
        \<and> (\<exists>job. (call_submit_job job, QPL_STS_OK) \<in> set (snd (init_hw lib))
              \<and> op job = qpl_op_crc64 \<and> available_in job = 4
              \<and> next_in_ptr job = [0, 0, 0, 0] \<and> crc64_poly job = poly))"
  by (auto simp: init_hw_def Let_def split: prod.splits)

text \<open>
  Claim C6. The outcome of \<open>init_hw\<close> is decided by the statuses the library returns:
  it raises exactly when one of the five calls (job size, init, submit, wait, finalize;
  each made on the job the previous one left) returns a status other than
  \<open>QPL_STS_OK\<close>, with the message of the first such step, and returns \<open>true\<close> exactly
  when all five return \<open>QPL_STS_OK\<close>. The calls it makes are these calls, in order, up to
  and including the first that fails: no step is made twice (no retry) and nothing is
  called after a failure (no downgrade). The job submitted is a \<open>qpl_op_crc64\<close>
  operation over a 4-byte buffer.
\<close>

theorem init_hw_fails_iff_a_step_fails:
  "snd (init_hw lib) = upto_first_failure (hw_steps lib)
   \<and> fst (init_hw lib) =
       (case find (\<lambda>c. snd c \<noteq> QPL_STS_OK) (hw_steps lib) of
          None \<Rightarrow> Inr True
        | Some c \<Rightarrow> Inl (runtime_error (''hw init failed in '' @ step_name (step_of (fst c)))))
   \<and> ((\<exists>e. fst (init_hw lib) = Inl e) \<longleftrightarrow> (\<exists>c \<in> set (hw_steps lib). snd c \<noteq> QPL_STS_OK))
   \<and> (fst (init_hw lib) = Inr True \<longleftrightarrow> (\<forall>c \<in> set (hw_steps lib). snd c = QPL_STS_OK))
   \<and> (fst (init_hw lib) = Inr True \<longleftrightarrow>
        fst (qpl_get_job_size lib qpl_path_hardware) = QPL_STS_OK
        \<and> fst (qpl_init_job lib qpl_path_hardware) = QPL_STS_OK
        \<and> fst (qpl_submit_job lib
                 ((snd (qpl_init_job lib qpl_path_hardware))
                    \<lparr>next_in_ptr := [0, 0, 0, 0], available_in := 4,
                     op := qpl_op_crc64, crc64_poly := poly\<rparr>)) = QPL_STS_OK
        \<and> fst (qpl_wait_job lib (snd (qpl_submit_job lib
                 ((snd (qpl_init_job lib qpl_path_hardware))
                    \<lparr>next_in_ptr := [0, 0, 0, 0], available_in := 4,
                     op := qpl_op_crc64, crc64_poly := poly\<rparr>)))) = QPL_STS_OK
        \<and> fst (qpl_fini_job lib (snd (qpl_wait_job lib (snd (qpl_submit_job lib
                 ((snd (qpl_init_job lib qpl_path_hardware))
                    \<lparr>next_in_ptr := [0, 0, 0, 0], available_in := 4,
                     op := qpl_op_crc64, crc64_poly := poly\<rparr>)))))) = QPL_STS_OK)
   \<and> ((\<exists>e. fst (init_hw lib) = Inl e) \<or> fst (init_hw lib) = Inr True)
   \<and> distinct (map (step_of \<circ> fst) (snd (init_hw lib)))
   \<and> (\<forall>c \<in> set (butlast (snd (init_hw lib))). snd c = QPL_STS_OK)
   \<and> ((\<exists>e. fst (init_hw lib) = Inl e) \<longleftrightarrow> (\<exists>c \<in> set (snd (init_hw lib)). snd c \<noteq> QPL_STS_OK))
   \<and> (fst (init_hw lib) = Inr True \<longleftrightarrow> (\<forall>c \<in> set (snd (init_hw lib)). snd c = QPL_STS_OK))
   \<and> (fst (init_hw lib) = Inr True \<longrightarrow>
        map (step_of \<circ> fst) (snd (init_hw lib))
          = [step_get_job_size, step_init_job, step_submit_job, step_wait_job, step_fini_job]
        \<and> (\<exists>job. (call_submit_job job, QPL_STS_OK) \<in> set (snd (init_hw lib))
              \<and> op job = qpl_op_crc64 \<and> available_in job = 4
              \<and> next_in_ptr job = [0, 0, 0, 0] \<and> crc64_poly job = poly))"
proof -
  have o: "fst (init_hw lib) =
       (case find (\<lambda>c. snd c \<noteq> QPL_STS_OK) (hw_steps lib) of
          None \<Rightarrow> Inr True
        | Some c \<Rightarrow> Inl (runtime_error (''hw init failed in '' @ step_name (step_of (fst c)))))"
    by (rule init_hw_outcome)
  have t: "fst (init_hw lib) = Inr True \<longleftrightarrow> (\<forall>c \<in> set (hw_steps lib). snd c = QPL_STS_OK)"
    unfolding o using find_None_all[of "\<lambda>c. snd c \<noteq> QPL_STS_OK" "hw_steps lib"]
    by (cases "find (\<lambda>c. snd c \<noteq> QPL_STS_OK) (hw_steps lib)") auto
  have e: "(\<exists>e. fst (init_hw lib) = Inl e) \<longleftrightarrow> (\<exists>c \<in> set (hw_steps lib). snd c \<noteq> QPL_STS_OK)"
    unfolding o using find_None_all[of "\<lambda>c. snd c \<noteq> QPL_STS_OK" "hw_steps lib"]
    by (cases "find (\<lambda>c. snd c \<noteq> QPL_STS_OK) (hw_steps lib)") auto
  have five: "fst (init_hw lib) = Inr True \<longleftrightarrow>
        fst (qpl_get_job_size lib qpl_path_hardware) = QPL_STS_OK
        \<and> fst (qpl_init_job lib qpl_path_hardware) = QPL_STS_OK
        \<and> fst (qpl_submit_job lib
                 ((snd (qpl_init_job lib qpl_path_hardware))
                    \<lparr>next_in_ptr := [0, 0, 0, 0], available_in := 4,
                     op := qpl_op_crc64, crc64_poly := poly\<rparr>)) = QPL_STS_OK
        \<and> fst (qpl_wait_job lib (snd (qpl_submit_job lib
                 ((snd (qpl_init_job lib qpl_path_hardware))
                    \<lparr>next_in_ptr := [0, 0, 0, 0], available_in := 4,
                     op := qpl_op_crc64, crc64_poly := poly\<rparr>)))) = QPL_STS_OK
        \<and> fst (qpl_fini_job lib (snd (qpl_wait_job lib (snd (qpl_submit_job lib
                 ((snd (qpl_init_job lib qpl_path_hardware))
                    \<lparr>next_in_ptr := [0, 0, 0, 0], available_in := 4,
                     op := qpl_op_crc64, crc64_poly := poly\<rparr>)))))) = QPL_STS_OK"
    unfolding t by (simp add: hw_steps_def Let_def)
  have third: "(\<exists>e. fst (init_hw lib) = Inl e) \<or> fst (init_hw lib) = Inr True"
    unfolding o by (cases "find (\<lambda>c. snd c \<noteq> QPL_STS_OK) (hw_steps lib)") auto
  show ?thesis
    using init_hw_own_calls[of lib]
    by (intro conjI init_hw_calls o e t five third) blast+
qed

text \<open>
  Two instances: a library whose five calls all succeed, and one whose \<open>qpl_wait_job\<close>
  returns status 5.
\<close>

theorem init_hw_fails_iff_a_step_fails_witness:
  "fst (init_hw \<lparr>qpl_get_job_size = (\<lambda>p. (0, 1024)),
      qpl_init_job = (\<lambda>p. (0, \<lparr>next_in_ptr = [], available_in = 0, op = qpl_op_unset, crc64_poly = 0\<rparr>)),
      qpl_submit_job = (\<lambda>j. (0, j)), qpl_wait_job = (\<lambda>j. (0, j)), qpl_fini_job = (\<lambda>j. (0, j))\<rparr>) = Inr True
   \<and> map (step_of \<circ> fst) (snd (init_hw \<lparr>qpl_get_job_size = (\<lambda>p. (0, 1024)),
      qpl_init_job = (\<lambda>p. (0, \<lparr>next_in_ptr = [], available_in = 0, op = qpl_op_unset, crc64_poly = 0\<rparr>)),
      qpl_submit_job = (\<lambda>j. (0, j)), qpl_wait_job = (\<lambda>j. (0, j)), qpl_fini_job = (\<lambda>j. (0, j))\<rparr>))
        = [step_get_job_size, step_init_job, step_submit_job, step_wait_job, step_fini_job]
   \<and> fst (init_hw \<lparr>qpl_get_job_size = (\<lambda>p. (0, 1024)),
      qpl_init_job = (\<lambda>p. (0, \<lparr>next_in_ptr = [], available_in = 0, op = qpl_op_unset, crc64_poly = 0\<rparr>)),
      qpl_submit_job = (\<lambda>j. (0, j)), qpl_wait_job = (\<lambda>j. (5, j)), qpl_fini_job = (\<lambda>j. (0, j))\<rparr>) = Inl (runtime_error ''hw init failed in qpl_wait_job'')
   \<and> map (step_of \<circ> fst) (snd (init_hw \<lparr>qpl_get_job_size = (\<lambda>p. (0, 1024)),
      qpl_init_job = (\<lambda>p. (0, \<lparr>next_in_ptr = [], available_in = 0, op = qpl_op_unset, crc64_poly = 0\<rparr>)),
      qpl_submit_job = (\<lambda>j. (0, j)), qpl_wait_job = (\<lambda>j. (5, j)), qpl_fini_job = (\<lambda>j. (0, j))\<rparr>))
        = [step_get_job_size, step_init_job, step_submit_job, step_wait_job]"
  using init_hw_fails_iff_a_step_fails[of "\<lparr>qpl_get_job_size = (\<lambda>p. (0, 1024)),
      qpl_init_job = (\<lambda>p. (0, \<lparr>next_in_ptr = [], available_in = 0, op = qpl_op_unset, crc64_poly = 0\<rparr>)),
      qpl_submit_job = (\<lambda>j. (0, j)), qpl_wait_job = (\<lambda>j. (0, j)), qpl_fini_job = (\<lambda>j. (0, j))\<rparr>"]
    init_hw_fails_iff_a_step_fails[of "\<lparr>qpl_get_job_size = (\<lambda>p. (0, 1024)),
      qpl_init_job = (\<lambda>p. (0, \<lparr>next_in_ptr = [], available_in = 0, op = qpl_op_unset, crc64_poly = 0\<rparr>)),
      qpl_submit_job = (\<lambda>j. (0, j)), qpl_wait_job = (\<lambda>j. (5, j)), qpl_fini_job = (\<lambda>j. (0, j))\<rparr>"]
  by (simp add: hw_steps_def QPL_STS_OK_def Let_def)

subsection \<open>Benchmark registry\<close>

lemma run_registry_from_spec:
  "run_registry_from i fs p =
     p\<lparr>world := foldl (\<lambda>w f. f w) (world p) fs, invoked := invoked p @ [i ..< i + length fs]\<rparr>"
proof (induction fs arbitrary: i p)
  case Nil
  then show ?case by simp
next
  case (Cons f fs)
  have "[i ..< i + length (f # fs)] = i # [Suc i ..< Suc i + length fs]"
    by (simp add: upt_conv_Cons del: upt_Suc)
  then show ?case
    using Cons.IH[of "Suc i"] by (simp del: upt_Suc)
qed

lemma register_all:
  "reg (foldl (\<lambda>p f. register_benchmark f p) p fs) = reg p @ fs"
  by (induction fs arbitrary: p) (simp_all add: register_benchmark_def get_registry_def)


lemma run_registry_spec:
  "run_registry p = p\<lparr>world := foldl (\<lambda>w f. f w) (world p) (reg p),
                          invoked := invoked p @ [0 ..< length (reg p)]\<rparr>"
  by (simp add: run_registry_def get_registry_def run_registry_from_spec)

lemma foldl_logging_callbacks:
  "foldl (\<lambda>w f. f w) l (map (\<lambda>n log. log @ [n]) ns) = l @ ns"
  by (induction ns arbitrary: l) simp_all

text \<open>
  Claim C9. Registering the callbacks \<open>fs\<close> one after another on an empty registry
  leaves the registry equal to \<open>fs\<close>. One drain calls the callbacks at positions
  \<open>0, ..., N - 1\<close>, each once and in this order, and applies their effects in this
  order; it leaves the registry as it was, so that a second drain calls every callback a
  second time. For callbacks that each append their own tag to a log, the log grows by
  the tags in registration order, once per drain.
\<close>

theorem registry_drain_once_in_order:
  "reg (foldl (\<lambda>p f. register_benchmark f p) (p\<lparr>reg := []\<rparr>) fs) = fs
   \<and> run_registry p = p\<lparr>world := foldl (\<lambda>w f. f w) (world p) (reg p),
                           invoked := invoked p @ [0 ..< length (reg p)]\<rparr>
   \<and> reg (run_registry p) = reg p
   \<and> invoked (run_registry (run_registry p))
       = invoked p @ [0 ..< length (reg p)] @ [0 ..< length (reg p)]
   \<and> world (run_registry (run_registry p))
       = foldl (\<lambda>w f. f w) (foldl (\<lambda>w f. f w) (world p) (reg p)) (reg p)
   \<and> world (run_registry \<lparr>reg = map (\<lambda>n log. log @ [n]) ns, world = log0, invoked = []\<rparr>)
       = log0 @ ns
   \<and> world (run_registry (run_registry
          \<lparr>reg = map (\<lambda>n log. log @ [n]) ns, world = log0, invoked = []\<rparr>))
       = log0 @ ns @ ns"
  by (simp add: run_registry_spec foldl_logging_callbacks register_all)

subsection \<open>Command line splicer\<close>

lemma shift_left_spec:
  "j < argc \<Longrightarrow> argc \<le> length argv \<Longrightarrow>
     shift_left argv j argc =
       Some (take j argv @ drop (Suc j) (take argc argv) @ [argv ! (argc - 1)] @ drop argc argv)"
proof (induction argv j argc rule: shift_left.induct)
  case (1 argv j argc)
  show ?case
  proof (cases "j = argc - 1")
    case True
    then have sj: "Suc j = argc" using "1.prems" by simp
    have "take j argv @ drop (Suc j) (take argc argv) @ [argv ! (argc - 1)] @ drop argc argv
          = take j argv @ argv ! j # drop (Suc j) argv"
      using True sj by simp
    also have "\<dots> = argv"
      using "1.prems" by (simp add: id_take_nth_drop[symmetric])
    finally have r: "take j argv @ drop (Suc j) (take argc argv) @ [argv ! (argc - 1)] @ drop argc argv = argv" .
    have "shift_left argv j argc = Some argv"
      by (subst shift_left.simps) (simp add: True)
    then show ?thesis
      by (simp only: r)
  next
    case False
    then have lt: "Suc j < argc" using "1.prems" by simp
    then have lt': "j + 1 < length argv" using "1.prems" by simp
    let ?a = "argv[j := argv ! Suc j]"
    have ih: "shift_left ?a (Suc j) argc =
       Some (take (Suc j) ?a @ drop (Suc (Suc j)) (take argc ?a) @ [?a ! (argc - 1)] @ drop argc ?a)"
      using "1.IH"[OF False lt'] lt "1.prems" by simp
    have t1: "take (Suc j) ?a = take j argv @ [argv ! Suc j]"
      using lt' by (simp add: take_Suc_conv_app_nth)
    have t2: "drop (Suc (Suc j)) (take argc ?a) = drop (Suc (Suc j)) (take argc argv)"
      by (simp add: take_update_swap)
    have t3: "?a ! (argc - 1) = argv ! (argc - 1)"
      using False by simp
    have t4: "drop argc ?a = drop argc argv"
      using lt by simp
    have t5: "drop (Suc j) (take argc argv) = argv ! Suc j # drop (Suc (Suc j)) (take argc argv)"
      using lt "1.prems" by (simp add: Cons_nth_drop_Suc[symmetric])
    have "shift_left argv j argc = shift_left ?a (Suc j) argc"
      using False lt' by (simp add: shift_left.simps[of argv j argc])
    also note ih
    finally show ?thesis
      by (simp only: t1 t2 t3 t4 t5 append.assoc append_Cons append_Nil)
  qed
qed

lemma shift_left_take:
  assumes "j < argc" and "argc \<le> length argv"
  shows "\<exists>argv'. shift_left argv j argc = Some argv' \<and> length argv' = length argv
           \<and> take (argc - 1) argv' = take j argv @ drop (Suc j) (take argc argv)"
proof -
  let ?r = "take j argv @ drop (Suc j) (take argc argv) @ [argv ! (argc - 1)] @ drop argc argv"
  have "length (take j argv @ drop (Suc j) (take argc argv)) = argc - 1"
    using assms by simp
  then have "take (argc - 1) ?r = take j argv @ drop (Suc j) (take argc argv)"
    by (metis append.assoc append_eq_conv_conj)
  moreover have "length ?r = length argv"
    using assms by simp
  ultimately show ?thesis
    using shift_left_spec[OF assms] by simp
qed

lemma first_true_related:
  assumes "list_all2 R xs ys" and "R None None"
    and "\<And>x y. R x y \<Longrightarrow> (x = None) = (y = None)"
  shows "R (first_true xs) (first_true ys)"
  using assms(1)
proof (induction xs ys rule: list_all2_induct)
  case Nil
  show ?case by (simp add: assms(2))
next
  case (Cons x xs y ys)
  show ?case
  proof (cases x)
    case None
    then have "y = None" using Cons.hyps(1) assms(3) by blast
    then have "first_true (y # ys) = first_true ys" by simp
    moreover have "first_true (x # xs) = first_true xs" using None by simp
    ultimately show ?thesis using Cons.IH by (simp only:)
  next
    case (Some a)
    then obtain b where b: "y = Some b" using Cons.hyps(1) assms(3) by (cases y) auto
    have "first_true (y # ys) = y" using b by simp
    moreover have "first_true (x # xs) = x" using Some by simp
    ultimately show ?thesis using Cons.hyps(1) by (simp only:)
  qed
qed

lemma parse_flags_chain_None_iff:
  "(parse_flags_chain api arg fl = None) = (parse_flags_chain api arg fl' = None)"
  unfolding parse_flags_chain_def
  by (rule first_true_related[where R = "\<lambda>x y. (x = None) = (y = None)"]) simp_all

lemma recognized_iff: "recognized api arg \<longleftrightarrow> parse_flags_chain api arg fl \<noteq> None"
  using parse_flags_chain_None_iff[of api arg fl default_flags]
  by (simp add: recognized_def split: option.splits)

lemma splice_token_unrecognized: "\<not> recognized api arg \<Longrightarrow> splice_token api fl arg = fl"
  by (simp add: recognized_iff[of api arg fl] splice_token_def)

lemma parse_local_loop_spec:
  "1 \<le> i \<Longrightarrow> i \<le> argc \<Longrightarrow> argc \<le> length argv \<Longrightarrow>
     \<exists>argv'. parse_local_loop api i argc argv fl helps =
        Some (i + length (filter (\<lambda>a. \<not> recognized api a) (drop i (take argc argv))),
              argv',
              foldl (splice_token api) fl (drop i (take argc argv)),
              helps + length (filter (\<lambda>a. \<not> recognized api a \<and> IsFlag api a ''help'')
                                 (drop i (take argc argv))))
        \<and> length argv' = length argv
        \<and> take (i + length (filter (\<lambda>a. \<not> recognized api a) (drop i (take argc argv)))) argv'
            = take i argv @ filter (\<lambda>a. \<not> recognized api a) (drop i (take argc argv))"
proof (induction api i argc argv fl helps rule: parse_local_loop.induct)
  case (1 api i argc argv fl helps)
  show ?case
  proof (cases "i < argc")
    case False
    then have eq: "i = argc" using "1.prems" by simp
    have "parse_local_loop api i argc argv fl helps = Some (argc, argv, fl, helps)"
      using False by (simp add: parse_local_loop.simps[of api i argc argv fl helps])
    then show ?thesis
      using "1.prems" eq by simp
  next
    case True
    then have il: "i < length argv" using "1.prems" by simp
    have dr: "drop i (take argc argv) = argv ! i # drop (Suc i) (take argc argv)"
      using True "1.prems" by (simp add: Cons_nth_drop_Suc[symmetric])
    show ?thesis
    proof (cases "parse_flags_chain api (argv ! i) fl")
      case None
      then have nr: "\<not> recognized api (argv ! i)"
        by (simp add: recognized_iff[of api "argv ! i" fl])
      have sp: "splice_token api fl (argv ! i) = fl"
        using None by (simp add: splice_token_def)
      have tk: "take (Suc i) argv = take i argv @ [argv ! i]"
        using il by (simp add: take_Suc_conv_app_nth)
      show ?thesis
      proof (cases "IsFlag api (argv ! i) ''help''")
        case h: True
        have "parse_local_loop api i argc argv fl helps = parse_local_loop api (Suc i) argc argv fl (Suc helps)"
          using True il None h by (simp add: parse_local_loop.simps[of api i argc argv fl helps])
        moreover obtain argv' where
          "parse_local_loop api (Suc i) argc argv fl (Suc helps) =
            Some (Suc i + length (filter (\<lambda>a. \<not> recognized api a) (drop (Suc i) (take argc argv))),
              argv',
              foldl (splice_token api) fl (drop (Suc i) (take argc argv)),
              Suc helps + length (filter (\<lambda>a. \<not> recognized api a \<and> IsFlag api a ''help'')
                                 (drop (Suc i) (take argc argv))))"
          "length argv' = length argv"
          "take (Suc i + length (filter (\<lambda>a. \<not> recognized api a) (drop (Suc i) (take argc argv)))) argv'
            = take (Suc i) argv @ filter (\<lambda>a. \<not> recognized api a) (drop (Suc i) (take argc argv))"
          using "1.IH"(1)[OF True il None h] True "1.prems" by auto
        ultimately show ?thesis
          using nr h sp by (simp add: dr tk)
      next
        case h: False
        have "parse_local_loop api i argc argv fl helps = parse_local_loop api (Suc i) argc argv fl helps"
          using True il None h by (simp add: parse_local_loop.simps[of api i argc argv fl helps])
        moreover obtain argv' where
          "parse_local_loop api (Suc i) argc argv fl helps =
            Some (Suc i + length (filter (\<lambda>a. \<not> recognized api a) (drop (Suc i) (take argc argv))),
              argv',
              foldl (splice_token api) fl (drop (Suc i) (take argc argv)),
              helps + length (filter (\<lambda>a. \<not> recognized api a \<and> IsFlag api a ''help'')
                                 (drop (Suc i) (take argc argv))))"
          "length argv' = length argv"
          "take (Suc i + length (filter (\<lambda>a. \<not> recognized api a) (drop (Suc i) (take argc argv)))) argv'
            = take (Suc i) argv @ filter (\<lambda>a. \<not> recognized api a) (drop (Suc i) (take argc argv))"
          using "1.IH"(2)[OF True il None h] True "1.prems" by auto
        ultimately show ?thesis
          using nr h sp by (simp add: dr tk)
      qed
    next
      case (Some fl')
      then have r: "recognized api (argv ! i)"
        by (simp add: recognized_iff[of api "argv ! i" fl])
      have sp: "splice_token api fl (argv ! i) = fl'"
        using Some by (simp add: splice_token_def)
      obtain shifted where sh: "shift_left argv i argc = Some shifted"
        and shl: "length shifted = length argv"
        and sht: "take (argc - 1) shifted = take i argv @ drop (Suc i) (take argc argv)"
        using shift_left_take[OF True "1.prems"(3)] by blast
      have i1: "Suc (i - 1) = i" using "1.prems" by simp
      have d2: "drop i (take (argc - 1) shifted) = drop (Suc i) (take argc argv)"
        unfolding sht using il by simp
      have t2: "take i shifted = take i argv"
      proof -
        have "take i (take (argc - 1) shifted) = take i argv"
          using il by (simp only: sht) simp
        moreover have "i \<le> argc - 1" using True by simp
        ultimately show ?thesis by (simp add: min_absorb1)
      qed
      have "parse_local_loop api i argc argv fl helps
              = parse_local_loop api i (argc - 1) shifted fl' helps"
        using True il Some sh i1 by (simp add: parse_local_loop.simps[of api i argc argv fl helps])
      moreover have "\<exists>argv'. parse_local_loop api (Suc (i - 1)) (argc - 1) shifted fl' helps =
            Some (Suc (i - 1) + length (filter (\<lambda>a. \<not> recognized api a)
                                     (drop (Suc (i - 1)) (take (argc - 1) shifted))),
              argv',
              foldl (splice_token api) fl' (drop (Suc (i - 1)) (take (argc - 1) shifted)),
              helps + length (filter (\<lambda>a. \<not> recognized api a \<and> IsFlag api a ''help'')
                                 (drop (Suc (i - 1)) (take (argc - 1) shifted))))
          \<and> length argv' = length shifted
          \<and> take (Suc (i - 1) + length (filter (\<lambda>a. \<not> recognized api a)
                                     (drop (Suc (i - 1)) (take (argc - 1) shifted)))) argv'
            = take (Suc (i - 1)) shifted @ filter (\<lambda>a. \<not> recognized api a)
                                     (drop (Suc (i - 1)) (take (argc - 1) shifted))"
      proof (rule "1.IH"(3)[OF True il Some sh])
        show "1 \<le> Suc (i - 1)" by simp
        show "Suc (i - 1) \<le> argc - 1" using True i1 by simp
        show "argc - 1 \<le> length shifted" using "1.prems"(3) shl by simp
      qed
      then obtain argv' where
          "parse_local_loop api i (argc - 1) shifted fl' helps =
            Some (i + length (filter (\<lambda>a. \<not> recognized api a) (drop i (take (argc - 1) shifted))),
              argv',
              foldl (splice_token api) fl' (drop i (take (argc - 1) shifted)),
              helps + length (filter (\<lambda>a. \<not> recognized api a \<and> IsFlag api a ''help'')
                                 (drop i (take (argc - 1) shifted))))"
          "length argv' = length shifted"
          "take (i + length (filter (\<lambda>a. \<not> recognized api a) (drop i (take (argc - 1) shifted)))) argv'
            = take i shifted @ filter (\<lambda>a. \<not> recognized api a) (drop i (take (argc - 1) shifted))"
        unfolding i1 by blast
      ultimately show ?thesis
        unfolding d2 t2 using r sp shl by (simp add: dr)
    qed
  qed
qed

lemma read_flag_updates:
  "read_flag f (fl\<lparr>FLAGS_dataset := s\<rparr>) = (if id_dataset = f then string_value s else read_flag f fl)"
  "read_flag f (fl\<lparr>FLAGS_block_size := s\<rparr>) = (if id_block_size = f then string_value s else read_flag f fl)"
  "read_flag f (fl\<lparr>FLAGS_threads := n\<rparr>) = (if id_threads = f then int32_value n else read_flag f fl)"
  "read_flag f (fl\<lparr>FLAGS_node := n\<rparr>) = (if id_node = f then int32_value n else read_flag f fl)"
  "read_flag f (fl\<lparr>FLAGS_full_time := b\<rparr>) = (if id_full_time = f then bool_value b else read_flag f fl)"
  "read_flag f (fl\<lparr>FLAGS_queue_size := n\<rparr>) = (if id_queue_size = f then int32_value n else read_flag f fl)"
  "read_flag f (fl\<lparr>FLAGS_batch_size := n\<rparr>) = (if id_batch_size = f then int32_value n else read_flag f fl)"
  "read_flag f (fl\<lparr>FLAGS_no_hw := b\<rparr>) = (if id_no_hw = f then bool_value b else read_flag f fl)"
  "read_flag f (fl\<lparr>FLAGS_in_mem := s\<rparr>) = (if id_in_mem = f then string_value s else read_flag f fl)"
  "read_flag f (fl\<lparr>FLAGS_out_mem := s\<rparr>) = (if id_out_mem = f then string_value s else read_flag f fl)"
  "read_flag f (fl\<lparr>FLAGS_canned_part := d\<rparr>) = (if id_canned_part = f then double_value d else read_flag f fl)"
  "read_flag f (fl\<lparr>FLAGS_canned_regen := b\<rparr>) = (if id_canned_regen = f then bool_value b else read_flag f fl)"
  by (cases f; simp)+

lemma chain_entry_related:
  assumes "\<And>v f. read_flag f (st v) = (if g = f then tg v else read_flag f fl)"
  shows "(case map_option st r of
            None \<Rightarrow> map_option (\<lambda>v. (g, tg v)) r = None
          | Some fl' \<Rightarrow> (\<exists>g' v'. map_option (\<lambda>v. (g, tg v)) r = Some (g', v')
                \<and> (\<forall>f. read_flag f fl' = (if g' = f then v' else read_flag f fl))))"
  using assms by (cases r) simp_all

lemma chain_sets_related:
  "(case parse_flags_chain api arg fl of
      None \<Rightarrow> token_sets api arg = None
    | Some fl' \<Rightarrow> (\<exists>g v. token_sets api arg = Some (g, v)
          \<and> (\<forall>f. read_flag f fl' = (if g = f then v else read_flag f fl))))"
  unfolding parse_flags_chain_def token_sets_def
proof (rule first_true_related[where R = "\<lambda>x y. (case x of
      None \<Rightarrow> y = None
    | Some fl' \<Rightarrow> (\<exists>g v. y = Some (g, v)
          \<and> (\<forall>f. read_flag f fl' = (if g = f then v else read_flag f fl))))"])
  show "list_all2 (\<lambda>x y. (case x of
      None \<Rightarrow> y = None
    | Some fl' \<Rightarrow> (\<exists>g v. y = Some (g, v)
          \<and> (\<forall>f. read_flag f fl' = (if g = f then v else read_flag f fl)))))
     [map_option (\<lambda>v. fl\<lparr>FLAGS_dataset := v\<rparr>) (ParseStringFlag api arg ''dataset''),
       map_option (\<lambda>v. fl\<lparr>FLAGS_block_size := v\<rparr>) (ParseStringFlag api arg ''block_size''),
       map_option (\<lambda>v. fl\<lparr>FLAGS_threads := v\<rparr>) (ParseInt32Flag api arg ''threads''),
       map_option (\<lambda>v. fl\<lparr>FLAGS_node := v\<rparr>) (ParseInt32Flag api arg ''node''),
       map_option (\<lambda>v. fl\<lparr>FLAGS_full_time := v\<rparr>) (ParseBoolFlag api arg ''full_time''),
       map_option (\<lambda>v. fl\<lparr>FLAGS_queue_size := v\<rparr>) (ParseInt32Flag api arg ''queue_size''),
       map_option (\<lambda>v. fl\<lparr>FLAGS_batch_size := v\<rparr>) (ParseInt32Flag api arg ''batch_size''),
       map_option (\<lambda>v. fl\<lparr>FLAGS_no_hw := v\<rparr>) (ParseBoolFlag api arg ''no_hw''),
       map_option (\<lambda>v. fl\<lparr>FLAGS_in_mem := v\<rparr>) (ParseStringFlag api arg ''in_mem''),
       map_option (\<lambda>v. fl\<lparr>FLAGS_out_mem := v\<rparr>) (ParseStringFlag api arg ''out_mem''),
       map_option (\<lambda>v. fl\<lparr>FLAGS_canned_part := v\<rparr>) (ParseDoubleFlag api arg ''canned_part''),
       map_option (\<lambda>v. fl\<lparr>FLAGS_canned_regen := v\<rparr>) (ParseBoolFlag api arg ''canned_regen'')]
      [map_option (\<lambda>v. (id_dataset, string_value v)) (ParseStringFlag api arg ''dataset''),
       map_option (\<lambda>v. (id_block_size, string_value v)) (ParseStringFlag api arg ''block_size''),
       map_option (\<lambda>v. (id_threads, int32_value v)) (ParseInt32Flag api arg ''threads''),
       map_option (\<lambda>v. (id_node, int32_value v)) (ParseInt32Flag api arg ''node''),
       map_option (\<lambda>v. (id_full_time, bool_value v)) (ParseBoolFlag api arg ''full_time''),
       map_option (\<lambda>v. (id_queue_size, int32_value v)) (ParseInt32Flag api arg ''queue_size''),
       map_option (\<lambda>v. (id_batch_size, int32_value v)) (ParseInt32Flag api arg ''batch_size''),
       map_option (\<lambda>v. (id_no_hw, bool_value v)) (ParseBoolFlag api arg ''no_hw''),
       map_option (\<lambda>v. (id_in_mem, string_value v)) (ParseStringFlag api arg ''in_mem''),
       map_option (\<lambda>v. (id_out_mem, string_value v)) (ParseStringFlag api arg ''out_mem''),
       map_option (\<lambda>v. (id_canned_part, double_value v)) (ParseDoubleFlag api arg ''canned_part''),
       map_option (\<lambda>v. (id_canned_regen, bool_value v)) (ParseBoolFlag api arg ''canned_regen'')]"
    by (intro list_all2_Cons[THEN iffD2] conjI list_all2_Nil[THEN iffD2] refl chain_entry_related
          read_flag_updates)
next
  show "case None of None \<Rightarrow> None = None
    | Some fl' \<Rightarrow> (\<exists>g v. None = Some (g, v)
          \<and> (\<forall>f. read_flag f fl' = (if g = f then v else read_flag f fl)))"
    by simp
next
  fix x :: "flags option" and y :: "(flag_id \<times> flag_value) option"
  assume "case x of None \<Rightarrow> y = None
    | Some fl' \<Rightarrow> (\<exists>g v. y = Some (g, v)
          \<and> (\<forall>f. read_flag f fl' = (if g = f then v else read_flag f fl)))"
  then show "(x = None) = (y = None)"
    by (cases x) auto
qed

lemma read_flag_splice_token:
  "read_flag f (splice_token api fl arg) =
     (case token_sets api arg of
        None \<Rightarrow> read_flag f fl
      | Some (g, v) \<Rightarrow> if g = f then v else read_flag f fl)"
  using chain_sets_related[of api arg fl]
  by (cases "parse_flags_chain api arg fl") (auto simp: splice_token_def)

lemma last_occurrence_Nil [simp]: "last_occurrence api f [] = None"
  by (simp add: last_occurrence_def List.map_filter_simps)

lemma last_occurrence_Cons:
  "last_occurrence api f (a # rest) =
     (case last_occurrence api f rest of
        Some v \<Rightarrow> Some v
      | None \<Rightarrow> (case token_sets api a of
                   None \<Rightarrow> None
                 | Some (g, v) \<Rightarrow> if g = f then Some v else None))"
  by (cases "token_sets api a")
     (auto simp: last_occurrence_def List.map_filter_simps split: list.splits)

lemma read_flag_foldl:
  "read_flag f (foldl (splice_token api) fl args) =
     (case last_occurrence api f args of None \<Rightarrow> read_flag f fl | Some v \<Rightarrow> v)"
proof (induction args arbitrary: fl)
  case Nil
  then show ?case by simp
next
  case (Cons a rest)
  show ?case
    by (simp add: Cons.IH read_flag_splice_token last_occurrence_Cons split: option.splits)
qed

lemma parse_local_spec:
  assumes "argc \<le> length argv"
  shows "\<exists>argc' argv' fl' helps.
        parse_local api argc argv fl = Some (argc', argv', fl', helps)
        \<and> take argc' argv' = take 1 (take argc argv)
              @ filter (\<lambda>a. \<not> recognized api a) (drop 1 (take argc argv))
        \<and> fl' = foldl (splice_token api) fl (drop 1 (take argc argv))"
proof (cases "argc = 0")
  case True
  have "parse_local_loop api 1 argc argv fl 0 = Some (argc, argv, fl, 0)"
    by (subst parse_local_loop.simps) (simp add: True)
  then show ?thesis
    by (simp add: parse_local_def True)
next
  case False
  then have "1 \<le> argc" by simp
  from parse_local_loop_spec[OF order_refl this assms, of api fl 0]
  show ?thesis
    unfolding parse_local_def using \<open>1 \<le> argc\<close> by (auto simp: take_take min_absorb1)
qed

lemma example_argv_spliced:
  "\<exists>argv'. parse_local (framework_parsers truthy read_int32 read_double) 4
               [''prog'', ''--block_size=4K'', ''--no_hw'', ''--foo''] default_flags
             = Some (2, argv', default_flags\<lparr>FLAGS_block_size := ''4K'', FLAGS_no_hw := True\<rparr>, 0)
           \<and> take 2 argv' = [''prog'', ''--foo'']"
  by (simp add: parse_local_def parse_local_loop.simps shift_left.simps parse_flags_chain_def
        framework_parsers_def ParseFlagValue_def default_flags_def)

text \<open>
  Claim C4. Whenever the array holds the \<open>argc\<close> arguments, \<open>parse_local\<close> returns,
  and the arguments that remain (the first \<open>argc'\<close> entries of the array) are the
  program name followed by exactly the arguments that are not recognized, in their
  original order; every flag holds the value that the last argument setting it gave it,
  and its former value when no argument sets it. For the arguments \<open>prog\<close>,
  \<open>--block_size=4K\<close>, \<open>--no_hw\<close>, \<open>--foo\<close> (whatever the readers of values are) the
  remaining arguments are \<open>prog\<close>, \<open>--foo\<close>, \<open>no_hw\<close> is true and the stored block size
  resolves to 4096.
\<close>

theorem parse_local_keeps_unrecognized_in_order:
  "(argc \<le> length argv \<longrightarrow>
      (\<exists>argc' argv' fl' helps.
         parse_local api argc argv fl = Some (argc', argv', fl', helps)
         \<and> take argc' argv' = take 1 (take argc argv)
               @ filter (\<lambda>a. \<not> recognized api a) (drop 1 (take argc argv))
         \<and> (\<forall>f. read_flag f fl' =
                (case last_occurrence api f (drop 1 (take argc argv)) of
                   None \<Rightarrow> read_flag f fl
                 | Some v \<Rightarrow> v))))
   \<and> (\<exists>argv'. parse_local (framework_parsers truthy read_int32 read_double) 4
                  [''prog'', ''--block_size=4K'', ''--no_hw'', ''--foo''] default_flags
                = Some (2, argv', default_flags\<lparr>FLAGS_block_size := ''4K'', FLAGS_no_hw := True\<rparr>, 0)
              \<and> take 2 argv' = [''prog'', ''--foo''])
   \<and> fst (get_block_size (default_flags\<lparr>FLAGS_block_size := ''4K'', FLAGS_no_hw := True\<rparr>) (- 1))
       = Inr 4096
   \<and> FLAGS_no_hw (default_flags\<lparr>FLAGS_block_size := ''4K'', FLAGS_no_hw := True\<rparr>)"
proof (intro conjI impI)
  assume "argc \<le> length argv"
  from parse_local_spec[OF this, of api fl]
  show "\<exists>argc' argv' fl' helps.
         parse_local api argc argv fl = Some (argc', argv', fl', helps)
         \<and> take argc' argv' = take 1 (take argc argv)
               @ filter (\<lambda>a. \<not> recognized api a) (drop 1 (take argc argv))
         \<and> (\<forall>f. read_flag f fl' =
                (case last_occurrence api f (drop 1 (take argc argv)) of
                   None \<Rightarrow> read_flag f fl
                 | Some v \<Rightarrow> v))"
    using read_flag_foldl[of _ api fl "drop 1 (take argc argv)"] by auto
next
  show "\<exists>argv'. parse_local (framework_parsers truthy read_int32 read_double) 4
                  [''prog'', ''--block_size=4K'', ''--no_hw'', ''--foo''] default_flags
                = Some (2, argv', default_flags\<lparr>FLAGS_block_size := ''4K'', FLAGS_no_hw := True\<rparr>, 0)
              \<and> take 2 argv' = [''prog'', ''--foo'']"
    by (rule example_argv_spliced)
next
  show "fst (get_block_size (default_flags\<lparr>FLAGS_block_size := ''4K'', FLAGS_no_hw := True\<rparr>) (- 1))
       = Inr 4096"
    by (simp add: get_block_size_def default_flags_def toupper_c_def block_size_mult_def
          string_find_def atoi_def strtol_saturate_def isspace_c_def dec_digit_def)
next
  show "FLAGS_no_hw (default_flags\<lparr>FLAGS_block_size := ''4K'', FLAGS_no_hw := True\<rparr>)"
    by simp
qed

text \<open>An instance: the same flag given twice, around an argument that is not recognized.\<close>

theorem parse_local_keeps_unrecognized_in_order_witness:
  "\<exists>argc' argv' fl' helps.
     parse_local (framework_parsers (\<lambda>v. True) (\<lambda>v. None) (\<lambda>v. None)) 4
        [''prog'', ''--block_size=1K'', ''--foo'', ''--block_size=2K''] default_flags
       = Some (argc', argv', fl', helps)
     \<and> take argc' argv' = [''prog'', ''--foo'']
     \<and> read_flag id_block_size fl' = string_value ''2K''
     \<and> read_flag id_threads fl' = int32_value 0"
proof -
  let ?api = "framework_parsers (\<lambda>v. True) (\<lambda>v. None) (\<lambda>v. None)"
  let ?argv = "[''prog'', ''--block_size=1K'', ''--foo'', ''--block_size=2K'']"
  have r: "recognized ?api ''--block_size=1K''" "\<not> recognized ?api ''--foo''"
    "recognized ?api ''--block_size=2K''"
    by (simp_all add: recognized_def parse_flags_chain_def framework_parsers_def ParseFlagValue_def)
  have t: "token_sets ?api ''--block_size=1K'' = Some (id_block_size, string_value ''1K'')"
    "token_sets ?api ''--foo'' = None"
    "token_sets ?api ''--block_size=2K'' = Some (id_block_size, string_value ''2K'')"
    by (simp_all add: token_sets_def framework_parsers_def ParseFlagValue_def)
  have l: "last_occurrence ?api id_block_size [''--block_size=1K'', ''--foo'', ''--block_size=2K'']
            = Some (string_value ''2K'')"
    "last_occurrence ?api id_threads [''--block_size=1K'', ''--foo'', ''--block_size=2K''] = None"
    by (simp_all add: last_occurrence_Cons t)
  have len: "4 \<le> length ?argv" by simp
  obtain argc' argv' fl' helps where
    1: "parse_local ?api 4 ?argv default_flags = Some (argc', argv', fl', helps)"
    and 2: "take argc' argv' = take 1 (take 4 ?argv)
               @ filter (\<lambda>a. \<not> recognized ?api a) (drop 1 (take 4 ?argv))"
    and 3: "\<forall>f. read_flag f fl' =
                (case last_occurrence ?api f (drop 1 (take 4 ?argv)) of
                   None \<Rightarrow> read_flag f default_flags
                 | Some v \<Rightarrow> v)"
    using parse_local_keeps_unrecognized_in_order[of 4 ?argv ?api default_flags] len by blast
  have "take argc' argv' = [''prog'', ''--foo'']"
    using 2 r by simp
  moreover have "read_flag id_block_size fl' = string_value ''2K''"
    using 3[rule_format, of id_block_size] l by simp
  moreover have "read_flag id_threads fl' = int32_value 0"
    using 3[rule_format, of id_threads] l by (simp add: default_flags_def)
  ultimately show ?thesis
    using 1 by blast
qed

subsection \<open>Zero extension of the node argument\<close>

lemma unat_ucast_32_64: "unat (ucast (n :: 32 word) :: 64 word) = unat n"
  by (simp add: unsigned_ucast_eq take_bit_nat_eq_self less_trans[OF unsigned_less])

lemma ucast_32_64_not_sentinel: "(ucast (n :: 32 word) :: 64 word) \<noteq> - 1"
proof
  assume "(ucast n :: 64 word) = - 1"
  then have "unat (ucast n :: 64 word) = unat (- 1 :: 64 word)"
    by simp
  then have "unat n = 2 ^ 64 - 1"
    by (simp add: unat_ucast_32_64 unsigned_minus_1_eq_mask mask_eq_exp_minus_1)
  moreover have "unat n < 2 ^ 32"
    using unsigned_less[of n, where 'a = nat] by simp
  ultimately show False
    by simp
qed

subsection \<open>The enumerator\<close>

lemma get_num_devices_loop_counts:
  "get_num_devices_loop disp numa counter =
     counter + int (length (filter (\<lambda>d. numa_id d = ucast numa) disp))
             + int (length (filter (\<lambda>d. numa_id d = - 1) disp))"
  by (induction disp arbitrary: counter) (auto simp: ucast_32_64_not_sentinel)

text \<open>
  Claim C2. For every node argument and every device list, \<open>get_num_devices\<close> returns
  the number of devices whose locality equals the (zero-extended) node plus the number of
  devices whose locality is the unknown sentinel \<open>(uint64_t)(-1)\<close>. For the localities
  0, 0, 1, unknown, unknown the count for node 0 is 4 and for node 1 it is 3. The
  function only reads the device list: its result is a function of the list and the node.
\<close>

theorem get_num_devices_matching_plus_unknown:
  "get_num_devices disp numa =
     int (length (filter (\<lambda>d. numa_id d = ucast numa) disp))
     + int (length (filter (\<lambda>d. numa_id d = - 1) disp))
   \<and> get_num_devices [\<lparr>numa_id = 0\<rparr>, \<lparr>numa_id = 0\<rparr>, \<lparr>numa_id = 1\<rparr>,
         \<lparr>numa_id = - 1\<rparr>, \<lparr>numa_id = - 1\<rparr>] 0 = 4
   \<and> get_num_devices [\<lparr>numa_id = 0\<rparr>, \<lparr>numa_id = 0\<rparr>, \<lparr>numa_id = 1\<rparr>,
         \<lparr>numa_id = - 1\<rparr>, \<lparr>numa_id = - 1\<rparr>] 1 = 3"
  by (simp add: get_num_devices_def get_num_devices_loop_counts)

text \<open>
  Claim C10, as stated, fails: called with the 32-bit all-ones node, the enumerator also
  counts a device whose 64-bit locality is \<open>0x00000000FFFFFFFF\<close>, a concrete value
  that is not the 64-bit sentinel, through the direct equality branch.
\<close>

theorem get_num_devices_all_ones_counterexample:
  "get_num_devices [\<lparr>numa_id = 0xFFFFFFFF\<rparr>] 0xFFFFFFFF = 1
   \<and> length (filter (\<lambda>d. numa_id d = - 1) [\<lparr>numa_id = 0xFFFFFFFF\<rparr>]) = 0"
  by (simp add: get_num_devices_def)

text \<open>
  Claim C10, amended. Called with the 32-bit all-ones node, the enumerator counts every
  device whose locality is the 64-bit unknown sentinel (through the workaround branch:
  the zero-extended argument differs from the sentinel, so the direct equality never
  fires for such a device) and, besides them, only the devices whose locality is exactly
  \<open>0x00000000FFFFFFFF\<close>.
\<close>

theorem get_num_devices_all_ones:
  "get_num_devices disp 0xFFFFFFFF =
     int (length (filter (\<lambda>d. numa_id d = - 1) disp))
     + int (length (filter (\<lambda>d. numa_id d = 0xFFFFFFFF) disp))
   \<and> (ucast (0xFFFFFFFF :: 32 word) :: 64 word) \<noteq> - 1"
  by (simp add: get_num_devices_def get_num_devices_loop_counts)

subsection \<open>Entry point\<close>

lemma main_run_spec:
  "main_run fw h =
     (returned 0,
      map step_callback [0 ..< length (reg (registry h))]
        @ [step_RunSpecifiedBenchmarks, step_Shutdown],
      h\<lparr>registry := (registry h)
          \<lparr>world := Shutdown fw (snd (RunSpecifiedBenchmarks fw
                       (foldl (\<lambda>w f. f w) (world (registry h)) (reg (registry h))))),
           invoked := invoked (registry h) @ [0 ..< length (reg (registry h))]\<rparr>\<rparr>)"
  by (simp add: main_run_def run_registry_spec Let_def split: prod.splits)

lemma main_unrecognized:
  assumes "parse_local (flag_syntax fw) argc argv (FLAGS h) = Some (argc', argv', fl, helps)"
    and "ReportUnrecognizedArguments fw (Initialize fw (take argc' argv'))"
  shows "main fw env lib argc argv h =
     Some (returned 1, [step_parse_local, step_Initialize, step_ReportUnrecognizedArguments],
           h\<lparr>FLAGS := fl\<rparr>)"
  using assms by (simp add: main_def)

lemma main_sys_info_fails:
  assumes "parse_local (flag_syntax fw) argc argv (FLAGS h) = Some (argc', argv', fl, helps)"
    and "\<not> ReportUnrecognizedArguments fw (Initialize fw (take argc' argv'))"
    and "get_sys_info env (sys_info h) = Some (Inl e, st)"
  shows "main fw env lib argc argv h =
     Some (uncaught e,
           [step_parse_local, step_Initialize, step_ReportUnrecognizedArguments, step_get_sys_info],
           h\<lparr>FLAGS := fl, sys_info := st\<rparr>)"
  using assms by (simp add: main_def main_checked_def)

lemma main_init_hw_fails:
  assumes "parse_local (flag_syntax fw) argc argv (FLAGS h) = Some (argc', argv', fl, helps)"
    and "\<not> ReportUnrecognizedArguments fw (Initialize fw (take argc' argv'))"
    and "get_sys_info env (sys_info h) = Some (Inr snapshot, st)"
    and "\<not> FLAGS_no_hw fl" and "fst (init_hw lib) = Inl e"
  shows "main fw env lib argc argv h =
     Some (uncaught e,
           [step_parse_local, step_Initialize, step_ReportUnrecognizedArguments, step_get_sys_info,
            step_init_hw],
           h\<lparr>FLAGS := fl, sys_info := st\<rparr>)"
  using assms by (simp add: main_def main_checked_def)

lemma main_returns_zero:
  assumes "parse_local (flag_syntax fw) argc argv (FLAGS h) = Some (argc', argv', fl, helps)"
    and "\<not> ReportUnrecognizedArguments fw (Initialize fw (take argc' argv'))"
    and "get_sys_info env (sys_info h) = Some (Inr snapshot, st)"
    and "FLAGS_no_hw fl \<or> fst (init_hw lib) = Inr ok"
  shows "main fw env lib argc argv h =
     Some (returned 0,
           [step_parse_local, step_Initialize, step_ReportUnrecognizedArguments, step_get_sys_info]
             @ (if FLAGS_no_hw fl then [] else [step_init_hw])
             @ map step_callback [0 ..< length (reg (registry h))]
             @ [step_RunSpecifiedBenchmarks, step_Shutdown],
           h\<lparr>FLAGS := fl, sys_info := st,
              registry := (registry h)
                \<lparr>world := Shutdown fw (snd (RunSpecifiedBenchmarks fw
                             (foldl (\<lambda>w f. f w) (world (registry h)) (reg (registry h))))),
                 invoked := invoked (registry h) @ [0 ..< length (reg (registry h))]\<rparr>\<rparr>)"
  using assms by (auto simp: main_def main_checked_def main_run_spec)

lemma main_ends:
  assumes "argc \<le> length argv" and "\<not> guard_locked (sys_info h)"
  shows "\<exists>res steps h'. main fw env lib argc argv h = Some (res, steps, h')"
proof -
  obtain argc' argv' fl helps where
    p: "parse_local (flag_syntax fw) argc argv (FLAGS h) = Some (argc', argv', fl, helps)"
    using parse_local_spec[OF assms(1), of "flag_syntax fw" "FLAGS h"] by blast
  have "get_sys_info env (sys_info h) \<noteq> None"
    using assms(2) by (simp add: get_sys_info_def Let_def split: option.split)
  then obtain r st where g: "get_sys_info env (sys_info h) = Some (r, st)"
    by (cases "get_sys_info env (sys_info h)") auto
  show ?thesis
  proof (cases "ReportUnrecognizedArguments fw (Initialize fw (take argc' argv'))")
    case True
    then show ?thesis using main_unrecognized[OF p True] by blast
  next
    case False
    show ?thesis
    proof (cases r)
      case (Inl e)
      then show ?thesis using main_sys_info_fails[OF p False] g by blast
    next
      case (Inr snapshot)
      show ?thesis
      proof (cases "FLAGS_no_hw fl")
        case True
        then show ?thesis using main_returns_zero[OF p False, of env snapshot st lib] g Inr by blast
      next
        case nohw: False
        show ?thesis
        proof (cases "fst (init_hw lib)")
          case (Inl e)
          then show ?thesis using main_init_hw_fails[OF p False _ nohw Inl] g Inr by blast
        next
          case ok: (Inr b)
          then show ?thesis using main_returns_zero[OF p False, of env snapshot st lib b] g Inr by blast
        qed
      qed
    qed
  qed
qed

lemma parse_local_only_program_name:
  "parse_local api 1 [prog] fl = Some (1, [prog], fl, 0)"
  by (simp add: parse_local_def parse_local_loop.simps)

lemma init_hw_all_ok:
  "fst (init_hw \<lparr>qpl_get_job_size = (\<lambda>p. (0, 1024)),
      qpl_init_job = (\<lambda>p. (0, \<lparr>next_in_ptr = [], available_in = 0, op = qpl_op_unset, crc64_poly = 0\<rparr>)),
      qpl_submit_job = (\<lambda>j. (0, j)), qpl_wait_job = (\<lambda>j. (0, j)), qpl_fini_job = (\<lambda>j. (0, j))\<rparr>)
     = Inr True"
  by (simp add: init_hw_def QPL_STS_OK_def Let_def)

text \<open>
  Claim C7, as stated, fails in its last part: with no unrecognized argument left,
  \<open>main\<close> returns the constant 0; what the framework's measurement loop returned (here
  7) is not used.
\<close>

theorem main_exit_status_counterexample:
  "fst (RunSpecifiedBenchmarks
         \<lparr>flag_syntax = framework_parsers (\<lambda>v. True) (\<lambda>v. None) (\<lambda>v. None),
          Initialize = (\<lambda>args. args), ReportUnrecognizedArguments = (\<lambda>args. 1 < length args),
          RunSpecifiedBenchmarks = (\<lambda>w. (7, w)), Shutdown = (\<lambda>w. w)\<rparr> ()) = 7
   \<and> map_option fst
        (main \<lparr>flag_syntax = framework_parsers (\<lambda>v. True) (\<lambda>v. None) (\<lambda>v. None),
               Initialize = (\<lambda>args. args), ReportUnrecognizedArguments = (\<lambda>args. 1 < length args),
               RunSpecifiedBenchmarks = (\<lambda>w. (7, w)), Shutdown = (\<lambda>w. w)\<rparr>
           \<lparr>uname_nodename = ''host'', uname_release = ''6.1'', proc_cpuinfo = Some [],
             dispatcher = []\<rparr>
           \<lparr>qpl_get_job_size = (\<lambda>p. (0, 1024)),
             qpl_init_job = (\<lambda>p. (0, \<lparr>next_in_ptr = [], available_in = 0, op = qpl_op_unset,
                                         crc64_poly = 0\<rparr>)),
             qpl_submit_job = (\<lambda>j. (0, j)), qpl_wait_job = (\<lambda>j. (0, j)),
             qpl_fini_job = (\<lambda>j. (0, j))\<rparr>
           1 [''prog'']
           \<lparr>FLAGS = default_flags, sys_info = initial_statics,
             registry = \<lparr>reg = [], world = (), invoked = []\<rparr>\<rparr>)
       = Some (returned 0)"
proof -
  let ?fw = "\<lparr>flag_syntax = framework_parsers (\<lambda>v. True) (\<lambda>v. None) (\<lambda>v. None),
               Initialize = (\<lambda>args. args), ReportUnrecognizedArguments = (\<lambda>args. 1 < length args),
               RunSpecifiedBenchmarks = (\<lambda>w. (7 :: nat, w)), Shutdown = (\<lambda>w. w)\<rparr> :: unit framework"
  let ?env = "\<lparr>uname_nodename = ''host'', uname_release = ''6.1'', proc_cpuinfo = Some [],
             dispatcher = []\<rparr>"
  let ?h = "\<lparr>FLAGS = default_flags, sys_info = initial_statics,
             registry = \<lparr>reg = [], world = (), invoked = []\<rparr>\<rparr> :: unit harness"
  have p: "parse_local (flag_syntax ?fw) 1 [''prog''] (FLAGS ?h) = Some (1, [''prog''], default_flags, 0)"
    using parse_local_only_program_name[of "flag_syntax ?fw" "''prog''" default_flags] by simp
  have r: "\<not> ReportUnrecognizedArguments ?fw (Initialize ?fw (take 1 [''prog'']))"
    by simp
  have g: "get_sys_info ?env (sys_info ?h) =
     Some (Inr (build_info ?env []
                 (default_info\<lparr>host_name := uname_nodename ?env, kernel := uname_release ?env\<rparr>)),
           \<lparr>info = build_info ?env []
                 (default_info\<lparr>host_name := uname_nodename ?env, kernel := uname_release ?env\<rparr>),
            is_setup = True, guard_locked = False,
            printed = [build_info ?env []
                 (default_info\<lparr>host_name := uname_nodename ?env, kernel := uname_release ?env\<rparr>)]\<rparr>)"
    using get_sys_info_first_call[of ?env "[]"] by simp
  show ?thesis
    using main_returns_zero[OF p r g disjI2[OF init_hw_all_ok]] by simp
qed

text \<open>
  Claim C7, amended. \<open>main\<close> ends whenever the array holds the \<open>argc\<close> arguments and
  the mutex of the probe is free. It first splices the domain flags out of the
  arguments, hands the remaining ones to the framework and asks it for unrecognized
  arguments; if there are any it returns 1 and does nothing else. Otherwise it calls
  \<open>get_sys_info\<close>, then \<open>init_hw\<close> unless \<open>no_hw\<close> is set (an exception of either ends
  \<open>main\<close> at that step, uncaught), then every registered callback in registration
  order, then the framework's measurement loop and its shutdown, and returns 0.
\<close>

theorem main_steps_in_order:
  "(argc \<le> length argv \<and> \<not> guard_locked (sys_info h) \<longrightarrow>
      (\<exists>res steps h'. main fw env lib argc argv h = Some (res, steps, h')))
   \<and> (parse_local (flag_syntax fw) argc argv (FLAGS h) = Some (argc', argv', fl, helps) \<longrightarrow>
        (ReportUnrecognizedArguments fw (Initialize fw (take argc' argv')) \<longrightarrow>
           main fw env lib argc argv h =
             Some (returned 1,
                   [step_parse_local, step_Initialize, step_ReportUnrecognizedArguments],
                   h\<lparr>FLAGS := fl\<rparr>))
      \<and> (\<not> ReportUnrecognizedArguments fw (Initialize fw (take argc' argv'))
           \<and> get_sys_info env (sys_info h) = Some (Inl e, st) \<longrightarrow>
           main fw env lib argc argv h =
             Some (uncaught e,
                   [step_parse_local, step_Initialize, step_ReportUnrecognizedArguments,
                    step_get_sys_info],
                   h\<lparr>FLAGS := fl, sys_info := st\<rparr>))
      \<and> (\<not> ReportUnrecognizedArguments fw (Initialize fw (take argc' argv'))
           \<and> get_sys_info env (sys_info h) = Some (Inr snapshot, st)
           \<and> \<not> FLAGS_no_hw fl \<and> fst (init_hw lib) = Inl e \<longrightarrow>
           main fw env lib argc argv h =
             Some (uncaught e,
                   [step_parse_local, step_Initialize, step_ReportUnrecognizedArguments,
                    step_get_sys_info, step_init_hw],
                   h\<lparr>FLAGS := fl, sys_info := st\<rparr>))
      \<and> (\<not> ReportUnrecognizedArguments fw (Initialize fw (take argc' argv'))
           \<and> get_sys_info env (sys_info h) = Some (Inr snapshot, st)
           \<and> (FLAGS_no_hw fl \<or> fst (init_hw lib) = Inr ok) \<longrightarrow>
           main fw env lib argc argv h =
             Some (returned 0,
                   [step_parse_local, step_Initialize, step_ReportUnrecognizedArguments,
                    step_get_sys_info]
                     @ (if FLAGS_no_hw fl then [] else [step_init_hw])
                     @ map step_callback [0 ..< length (reg (registry h))]
                     @ [step_RunSpecifiedBenchmarks, step_Shutdown],
                   h\<lparr>FLAGS := fl, sys_info := st,
                      registry := (registry h)
                        \<lparr>world := Shutdown fw (snd (RunSpecifiedBenchmarks fw
                             (foldl (\<lambda>w f. f w) (world (registry h)) (reg (registry h))))),
                         invoked := invoked (registry h) @ [0 ..< length (reg (registry h))]\<rparr>\<rparr>)))"
proof (intro conjI impI)
  assume "argc \<le> length argv \<and> \<not> guard_locked (sys_info h)"
  then show "\<exists>res steps h'. main fw env lib argc argv h = Some (res, steps, h')"
    using main_ends[of argc argv h fw env lib] by blast
next
  assume "parse_local (flag_syntax fw) argc argv (FLAGS h) = Some (argc', argv', fl, helps)"
    and "ReportUnrecognizedArguments fw (Initialize fw (take argc' argv'))"
  then show "main fw env lib argc argv h =
             Some (returned 1,
                   [step_parse_local, step_Initialize, step_ReportUnrecognizedArguments],
                   h\<lparr>FLAGS := fl\<rparr>)"
    by (rule main_unrecognized)
next
  assume p: "parse_local (flag_syntax fw) argc argv (FLAGS h) = Some (argc', argv', fl, helps)"
    and a: "\<not> ReportUnrecognizedArguments fw (Initialize fw (take argc' argv'))
           \<and> get_sys_info env (sys_info h) = Some (Inl e, st)"
  show "main fw env lib argc argv h =
             Some (uncaught e,
                   [step_parse_local, step_Initialize, step_ReportUnrecognizedArguments,
                    step_get_sys_info],
                   h\<lparr>FLAGS := fl, sys_info := st\<rparr>)"
    using main_sys_info_fails[OF p] a by blast
next
  assume p: "parse_local (flag_syntax fw) argc argv (FLAGS h) = Some (argc', argv', fl, helps)"
    and a: "\<not> ReportUnrecognizedArguments fw (Initialize fw (take argc' argv'))
           \<and> get_sys_info env (sys_info h) = Some (Inr snapshot, st)
           \<and> \<not> FLAGS_no_hw fl \<and> fst (init_hw lib) = Inl e"
  show "main fw env lib argc argv h =
             Some (uncaught e,
                   [step_parse_local, step_Initialize, step_ReportUnrecognizedArguments,
                    step_get_sys_info, step_init_hw],
                   h\<lparr>FLAGS := fl, sys_info := st\<rparr>)"
    using main_init_hw_fails[OF p] a by blast
next
  assume p: "parse_local (flag_syntax fw) argc argv (FLAGS h) = Some (argc', argv', fl, helps)"
    and a: "\<not> ReportUnrecognizedArguments fw (Initialize fw (take argc' argv'))
           \<and> get_sys_info env (sys_info h) = Some (Inr snapshot, st)
           \<and> (FLAGS_no_hw fl \<or> fst (init_hw lib) = Inr ok)"
  show "main fw env lib argc argv h =
             Some (returned 0,
                   [step_parse_local, step_Initialize, step_ReportUnrecognizedArguments,
                    step_get_sys_info]
                     @ (if FLAGS_no_hw fl then [] else [step_init_hw])
                     @ map step_callback [0 ..< length (reg (registry h))]
                     @ [step_RunSpecifiedBenchmarks, step_Shutdown],
                   h\<lparr>FLAGS := fl, sys_info := st,
                      registry := (registry h)
                        \<lparr>world := Shutdown fw (snd (RunSpecifiedBenchmarks fw
                             (foldl (\<lambda>w f. f w) (world (registry h)) (reg (registry h))))),
                         invoked := invoked (registry h) @ [0 ..< length (reg (registry h))]\<rparr>\<rparr>)"
    using main_returns_zero[OF p, of env snapshot st lib ok] a by blast
qed

text \<open>An instance: no flags, two registered callbacks, every library call succeeds.\<close>

theorem main_steps_in_order_witness:
  "map_option (\<lambda>(res, steps, h'). (res, steps, world (registry h')))
        (main \<lparr>flag_syntax = framework_parsers (\<lambda>v. True) (\<lambda>v. None) (\<lambda>v. None),
               Initialize = (\<lambda>args. args), ReportUnrecognizedArguments = (\<lambda>args. 1 < length args),
               RunSpecifiedBenchmarks = (\<lambda>w. (2, w)), Shutdown = (\<lambda>w. w)\<rparr>
           \<lparr>uname_nodename = ''host'', uname_release = ''6.1'', proc_cpuinfo = Some [],
             dispatcher = []\<rparr>
           \<lparr>qpl_get_job_size = (\<lambda>p. (0, 1024)),
             qpl_init_job = (\<lambda>p. (0, \<lparr>next_in_ptr = [], available_in = 0, op = qpl_op_unset,
                                         crc64_poly = 0\<rparr>)),
             qpl_submit_job = (\<lambda>j. (0, j)), qpl_wait_job = (\<lambda>j. (0, j)),
             qpl_fini_job = (\<lambda>j. (0, j))\<rparr>
           1 [''prog'']
           \<lparr>FLAGS = default_flags, sys_info = initial_statics,
             registry = \<lparr>reg = [(\<lambda>w. w @ [10]), (\<lambda>w. w @ [20])], world = [] :: nat list,
                          invoked = []\<rparr>\<rparr>)
       = Some (returned 0,
               [step_parse_local, step_Initialize, step_ReportUnrecognizedArguments,
                step_get_sys_info, step_init_hw, step_callback 0, step_callback 1,
                step_RunSpecifiedBenchmarks, step_Shutdown],
               [10, 20])"
proof -
  let ?fw = "\<lparr>flag_syntax = framework_parsers (\<lambda>v. True) (\<lambda>v. None) (\<lambda>v. None),
               Initialize = (\<lambda>args. args), ReportUnrecognizedArguments = (\<lambda>args. 1 < length args),
               RunSpecifiedBenchmarks = (\<lambda>w. (2 :: nat, w)), Shutdown = (\<lambda>w. w)\<rparr> :: nat list framework"
  let ?env = "\<lparr>uname_nodename = ''host'', uname_release = ''6.1'', proc_cpuinfo = Some [],
             dispatcher = []\<rparr>"
  let ?lib = "\<lparr>qpl_get_job_size = (\<lambda>p. (0, 1024)),
             qpl_init_job = (\<lambda>p. (0, \<lparr>next_in_ptr = [], available_in = 0, op = qpl_op_unset,
                                         crc64_poly = 0\<rparr>)),
             qpl_submit_job = (\<lambda>j. (0, j)), qpl_wait_job = (\<lambda>j. (0, j)),
             qpl_fini_job = (\<lambda>j. (0, j))\<rparr>"
  let ?h = "\<lparr>FLAGS = default_flags, sys_info = initial_statics,
             registry = \<lparr>reg = [(\<lambda>w. w @ [10]), (\<lambda>w. w @ [20])], world = [] :: nat list,
                          invoked = []\<rparr>\<rparr>"
  let ?snap = "build_info ?env []
                 (default_info\<lparr>host_name := uname_nodename ?env, kernel := uname_release ?env\<rparr>)"
  let ?st = "\<lparr>info = ?snap, is_setup = True, guard_locked = False, printed = [?snap]\<rparr>"
  have p: "parse_local (flag_syntax ?fw) 1 [''prog''] (FLAGS ?h) = Some (1, [''prog''], default_flags, 0)"
    using parse_local_only_program_name[of "flag_syntax ?fw" "''prog''" default_flags] by simp
  have r: "\<not> ReportUnrecognizedArguments ?fw (Initialize ?fw (take 1 [''prog'']))"
    by simp
  have g: "get_sys_info ?env (sys_info ?h) = Some (Inr ?snap, ?st)"
    using get_sys_info_first_call[of ?env "[]"] by simp
  have n: "\<not> FLAGS_no_hw default_flags"
    by (simp add: default_flags_def)
  have "main ?fw ?env ?lib 1 [''prog''] ?h =
             Some (returned 0,
                   [step_parse_local, step_Initialize, step_ReportUnrecognizedArguments,
                    step_get_sys_info]
                     @ (if FLAGS_no_hw default_flags then [] else [step_init_hw])
                     @ map step_callback [0 ..< length (reg (registry ?h))]
                     @ [step_RunSpecifiedBenchmarks, step_Shutdown],
                   ?h\<lparr>FLAGS := default_flags, sys_info := ?st,
                      registry := (registry ?h)
                        \<lparr>world := Shutdown ?fw (snd (RunSpecifiedBenchmarks ?fw
                             (foldl (\<lambda>w f. f w) (world (registry ?h)) (reg (registry ?h))))),
                         invoked := invoked (registry ?h) @ [0 ..< length (reg (registry ?h))]\<rparr>\<rparr>)"
    using main_steps_in_order[where fw = ?fw and env = ?env and lib = ?lib and argc = 1
        and argv = "[''prog'']" and h = ?h and argc' = 1 and argv' = "[''prog'']"
        and fl = default_flags and helps = 0 and snapshot = ?snap and st = ?st and ok = True]
      p r g init_hw_all_ok
    by blast
  then show ?thesis
    by (simp add: n upt_rec)
qed

end
